theory Spec2Isabelle
  imports Complex_Main "HOL-Library.Sublist"
begin

section \<open>Common data\<close>

text \<open>
  The scripts are Python; an uncaught exception ends the run.  Every operation of the
  model that can raise returns \<open>exn + 'a\<close>, with \<open>Inl\<close> carrying the exception.
  Python floats are idealised as real numbers, except in the rounding helpers of the
  meteogram, where the rounding of the float operations decides the result.
\<close>

datatype exn = ValueError | IndexError | KeyError | NameError | TypeError
  | ZeroDivisionError | URLError

section \<open>HRRR Meteogram: the axis rounding helpers\<close>

text \<open>
  Python's built-in \<open>round\<close> with one argument rounds to the nearest integer and
  resolves a tie to the even neighbour.
\<close>

definition py_round :: "real \<Rightarrow> int" where
  "py_round y =
     (let f = \<lfloor>y\<rfloor>; d = y - of_int f
      in if d < 1 / 2 then f else if 1 / 2 < d then f + 1
         else if even f then f else f + 1)"

text \<open>
  The temperatures are 64-bit floats.  \<open>fl64 x\<close> is the float nearest to the real
  number \<open>x\<close>, a tie going to the even significand: the result of every float
  operation is \<open>fl64\<close> of the exact result.  A float in the binade of \<open>x\<close> is a
  multiple of \<open>2 ^ (\<lfloor>log\<^sub>2 |x|\<rfloor> - 52)\<close>.  Overflow and subnormal numbers are not
  modelled; sums and quotients of temperatures reach neither.
\<close>

definition fl64 :: "real \<Rightarrow> real" where
  "fl64 x =
     (if x = 0 then 0
      else let u = 2 powr (of_int \<lfloor>log 2 \<bar>x\<bar>\<rfloor> - 52)
           in u * of_int (py_round (x / u)))"

text \<open>
  \<^verbatim>\<open>def roundup(x, base=5):  x = x + 5;  base = base * round(x/base);  return base\<close>
  and \<open>rounddown\<close> with \<open>x - 5\<close>.  The sum and the quotient are float operations,
  \<open>round\<close> returns an integer and the product is an integer product.  The division
  raises for \<open>base = 0\<close>.
\<close>

definition roundup :: "real \<Rightarrow> int \<Rightarrow> exn + int" where
  "roundup x base =
     (let x' = fl64 (x + 5)
      in if base = 0 then Inl ZeroDivisionError
         else Inr (base * py_round (fl64 (x' / of_int base))))"

definition rounddown :: "real \<Rightarrow> int \<Rightarrow> exn + int" where
  "rounddown x base =
     (let x' = fl64 (x - 5)
      in if base = 0 then Inl ZeroDivisionError
         else Inr (base * py_round (fl64 (x' / of_int base))))"

text \<open>
  \<^verbatim>\<open>ax.set_ylim(rounddown(df['Dewpf'].min()), roundup(df['TairF'].max()))\<close>:
  the two limits handed to the plot.  The minimum of an empty column is not a number,
  which \<open>round\<close> rejects.
\<close>

definition meteogram_ylim :: "real list \<Rightarrow> real list \<Rightarrow> exn + (int \<times> int)" where
  "meteogram_ylim dewpf tairf =
     (if dewpf = [] \<or> tairf = [] then Inl ValueError
      else case rounddown (Min (set dewpf)) 5 of
             Inl e \<Rightarrow> Inl e
           | Inr lo \<Rightarrow> (case roundup (Max (set tairf)) 5 of
                          Inl e \<Rightarrow> Inl e
                        | Inr hi \<Rightarrow> Inr (lo, hi)))"

section \<open>RAOB Cross Section: the interpolation grids\<close>

text \<open>
  \<open>np.arange(start, stop, step)\<close> on integers: \<open>\<lceil>(stop - start) / step\<rceil>\<close> values
  (none when that is negative), beginning at \<open>start\<close> and \<open>step\<close> apart.
\<close>

definition np_arange :: "int \<Rightarrow> int \<Rightarrow> int \<Rightarrow> exn + int list" where
  "np_arange start stop step =
     (if step = 0 then Inl ZeroDivisionError
      else Inr (map (\<lambda>i. start + int i * step)
                  [0 ..< nat (- ((- (stop - start)) div step))]))"

text \<open>
  \<open>np.linspace(a, b, num)\<close>: \<open>num\<close> evenly spaced samples, the last one set to \<open>b\<close>.
\<close>

definition np_linspace :: "real \<Rightarrow> real \<Rightarrow> nat \<Rightarrow> real list" where
  "np_linspace a b num =
     (if num = 0 then [] else if num = 1 then [a]
      else map (\<lambda>i. a + real i * ((b - a) / real (num - 1))) [0 ..< num - 1] @ [b])"

text \<open>
  \<open>np.meshgrid(xs, ys)\<close> with the default \<open>xy\<close> indexing: two arrays of
  \<open>len(ys)\<close> rows and \<open>len(xs)\<close> columns, the first repeating \<open>xs\<close> in every row, the
  second holding \<open>ys[i]\<close> throughout row \<open>i\<close>.
\<close>

definition np_meshgrid :: "'a list \<Rightarrow> 'b list \<Rightarrow> 'a list list \<times> 'b list list" where
  "np_meshgrid xs ys =
     (replicate (length ys) xs, map (\<lambda>y. replicate (length xs) y) ys)"

definition has_shape :: "'a list list \<Rightarrow> nat \<Rightarrow> nat \<Rightarrow> bool" where
  "has_shape m r c \<longleftrightarrow> length m = r \<and> list_all (\<lambda>row. length row = c) m"

text \<open>
  The grid set-up of \<open>radisonde_cross_section\<close>, from the station distances \<open>dist\<close> (here \<open>dists\<close>):
  \<^verbatim>\<open>
  vertical_levels = np.arange(start, end-1, -step)
  plevs = len(vertical_levels)
  x = np.linspace(dist[0], dist[-1], 100)
  nx = len(x)
  pp, xx = np.meshgrid(vertical_levels, x)
  grid[key] = np.empty((nx, plevs))\<close>
  Every array of \<open>grid_data\<close> is allocated with the shape \<open>(nx, plevs)\<close> and then filled
  in place, so the record keeps that shape.
\<close>

record cross_section_grid =
  vertical_levels :: "int list"
  plevs :: nat
  x_points :: "real list"
  nx :: nat
  p_grid :: "int list list"
  x_grid :: "real list list"
  grid_data_shape :: "nat \<times> nat"

definition cross_section_grids ::
  "real list \<Rightarrow> int \<Rightarrow> int \<Rightarrow> int \<Rightarrow> exn + cross_section_grid" where
  "cross_section_grids dists start end' step =
     (case np_arange start (end' - 1) (- step) of
        Inl e \<Rightarrow> Inl e
      | Inr levels \<Rightarrow>
          if dists = [] then Inl IndexError
          else let x = np_linspace (hd dists) (last dists) 100;
                   (pp, xx) = np_meshgrid levels x
               in Inr \<lparr>vertical_levels = levels, plevs = length levels,
                        x_points = x, nx = length x,
                        p_grid = pp, x_grid = xx,
                        grid_data_shape = (length x, length levels)\<rparr>)"

section \<open>Warning/LSR: the wind-report speeds\<close>

text \<open>
  A Python float is a finite number, an infinity or the not-a-number marker
  (\<open>np.nan\<close>).  A cell of the \<open>Speed\<close> column read by \<open>pd.read_csv\<close> is a string or a
  float.
\<close>

datatype pyfloat = Finite real | PosInf | NegInf | NaN

datatype cell = Str string | Flt pyfloat

text \<open>
  \<open>float(value)\<close>: a float is returned as it is; a string is parsed, and a string that
  is no float literal raises \<open>ValueError\<close>.  The literal grammar belongs to Python, so
  the parser \<open>pf\<close> is a parameter: \<open>pf s = None\<close> says that \<open>s\<close> is rejected.
\<close>

fun py_float :: "(string \<Rightarrow> pyfloat option) \<Rightarrow> cell \<Rightarrow> exn + pyfloat" where
  "py_float pf (Flt f) = Inr f"
| "py_float pf (Str s) = (case pf s of Some f \<Rightarrow> Inr f | None \<Rightarrow> Inl ValueError)"

text \<open>
  The names bound at module level in \<open>Warning_LSR_2.py\<close> by its import statements
  (lines 1 to 10).  The assignments of the script add data names only (\<open>tor_url\<close>,
  \<open>df_wind\<close>, ...); none of them binds \<open>np\<close>.
\<close>

definition imported_names :: "string list" where
  "imported_names = [''pd'', ''requests'', ''ccrs'', ''cfeature'', ''plt'',
     ''PatchCollection'', ''mplPolygon'', ''GeoAxes'', ''USCOUNTIES'', ''datetime'']"

text \<open>Evaluating the expression \<open>np.nan\<close> in that module.\<close>

definition np_nan :: "exn + pyfloat" where
  "np_nan = (if ''np'' \<in> set imported_names then Inr NaN else Inl NameError)"

text \<open>
  \<^verbatim>\<open>
  for i in range(len(df_wind['Speed'])):
      value = df_wind['Speed'][i]
      if value != 'UNK':
          try:
              df_wind['Speed'][i] = float(value)
          except ValueError:
              df_wind['Speed'][i] = np.nan\<close>
  The column is updated in place; the loop returns the exception that ended it, if
  any, together with the column as it stands at that moment.
\<close>

fun convert_loop ::
  "(string \<Rightarrow> pyfloat option) \<Rightarrow> nat list \<Rightarrow> cell list \<Rightarrow> exn option \<times> cell list" where
  "convert_loop pf [] col = (None, col)"
| "convert_loop pf (i # is) col =
     (let value = col ! i
      in if value \<noteq> Str ''UNK'' then
           (case py_float pf value of
              Inr f \<Rightarrow> convert_loop pf is (col[i := Flt f])
            | Inl e \<Rightarrow>
                if e = ValueError then
                  (case np_nan of
                     Inr n \<Rightarrow> convert_loop pf is (col[i := Flt n])
                   | Inl e' \<Rightarrow> (Some e', col))
                else (Some e, col))
         else convert_loop pf is col)"

definition convert_speeds ::
  "(string \<Rightarrow> pyfloat option) \<Rightarrow> cell list \<Rightarrow> exn option \<times> cell list" where
  "convert_speeds pf col = convert_loop pf [0 ..< length col] col"

text \<open>The comparison \<open>speed > 65\<close> on floats: false for not-a-number.\<close>

fun float_gt :: "pyfloat \<Rightarrow> real \<Rightarrow> bool" where
  "float_gt (Finite x) y \<longleftrightarrow> x > y"
| "float_gt PosInf y \<longleftrightarrow> True"
| "float_gt NegInf y \<longleftrightarrow> False"
| "float_gt NaN y \<longleftrightarrow> False"

text \<open>
  \<^verbatim>\<open>
  for index, row in df_wind.iterrows():
      if (row['Speed'] != 'UNK' and row['Speed'] > 65):
          ax.scatter(..., marker = 's', c='black', ..., label='High Wind Report (65KT+)')
      else:
          ax.scatter(..., c='blue', ..., label='Wind Report')\<close>
  One \<open>scatter\<close> call per row; the model records the row's index and which of the two
  calls was made.  Ordering a string against the number 65 raises \<open>TypeError\<close>.
\<close>

datatype marker = HighWind | WindReport

fun plot_row :: "cell \<Rightarrow> exn + marker" where
  "plot_row (Str s) = (if s \<noteq> ''UNK'' then Inl TypeError else Inr WindReport)"
| "plot_row (Flt f) = Inr (if float_gt f 65 then HighWind else WindReport)"

fun plot_loop :: "(nat \<times> cell) list \<Rightarrow> (nat \<times> marker) list \<Rightarrow> exn + (nat \<times> marker) list" where
  "plot_loop [] calls = Inr calls"
| "plot_loop ((index, speed) # rows) calls =
     (case plot_row speed of
        Inl e \<Rightarrow> Inl e
      | Inr m \<Rightarrow> plot_loop rows (calls @ [(index, m)]))"

definition plot_wind :: "cell list \<Rightarrow> exn + (nat \<times> marker) list" where
  "plot_wind col = plot_loop (zip [0 ..< length col] col) []"

text \<open>
  The wind-report part of the script: the conversion loop runs twice (lines 24 and
  82) before the rows are plotted.
\<close>

definition wind_reports ::
  "(string \<Rightarrow> pyfloat option) \<Rightarrow> cell list \<Rightarrow> exn + (nat \<times> marker) list" where
  "wind_reports pf col =
     (case convert_speeds pf col of
        (Some e, _) \<Rightarrow> Inl e
      | (None, col1) \<Rightarrow>
          (case convert_speeds pf col1 of
             (Some e, _) \<Rightarrow> Inl e
           | (None, col2) \<Rightarrow> plot_wind col2))"

text \<open>Whether a converted speed is known and above 65.\<close>

fun exceeds_65 :: "cell \<Rightarrow> bool" where
  "exceeds_65 (Str s) \<longleftrightarrow> False"
| "exceeds_65 (Flt f) \<longleftrightarrow> float_gt f 65"

section \<open>HRRR Meteogram: the altitude filter and the forecast time\<close>

text \<open>
  A row of the fetched point data.  A data frame is the list of its rows, each with
  its index label; \<open>pd.DataFrame(point_data)\<close> labels the rows \<open>0, 1, 2, ...\<close>.
\<close>

record point_row =
  alt :: real
  Temperature_isobaric :: real
  Dewpoint_temperature_isobaric :: real

type_synonym 'r frame = "(nat \<times> 'r) list"

definition data_frame :: "'r list \<Rightarrow> 'r frame" where
  "data_frame rows = zip [0 ..< length rows] rows"

text \<open>
  \<open>df.drop(index)\<close>: a new frame without the rows labelled \<open>index\<close>; a label that
  is not in the frame raises \<open>KeyError\<close>.
\<close>

definition df_drop :: "nat \<Rightarrow> 'r frame \<Rightarrow> exn + 'r frame" where
  "df_drop index df =
     (if index \<in> fst ` set df then Inr (filter (\<lambda>(label, row). label \<noteq> index) df)
      else Inl KeyError)"

text \<open>
  \<^verbatim>\<open>
  for index, row in df.iterrows():
      if row['alt'] != 100000:
          df = df.drop(index)\<close>
  The iteration runs over the rows of the frame as it was when the loop began (first
  argument); \<open>df\<close> is rebound to the shrinking frame (second argument).
\<close>

fun drop_loop :: "point_row frame \<Rightarrow> point_row frame \<Rightarrow> exn + point_row frame" where
  "drop_loop [] df = Inr df"
| "drop_loop ((index, row) # rest) df =
     (if alt row \<noteq> 100000 then
        (case df_drop index df of
           Inl e \<Rightarrow> Inl e
         | Inr df' \<Rightarrow> drop_loop rest df')
      else drop_loop rest df)"

text \<open>\<open>df.reset_index(drop=True)\<close>: the same rows, labelled afresh from 0.\<close>

definition reset_index :: "'r frame \<Rightarrow> 'r frame" where
  "reset_index df = zip [0 ..< length df] (map snd df)"

definition filter_altitude :: "point_row list \<Rightarrow> exn + point_row frame" where
  "filter_altitude point_data =
     (let df = data_frame point_data
      in case drop_loop df df of
           Inl e \<Rightarrow> Inl e
         | Inr df' \<Rightarrow> Inr (reset_index df'))"

text \<open>
  \<open>strftime('%I:%M %p')\<close> of a time given in seconds since the epoch: the hour on
  the 12-hour clock and the minute, two digits each, then \<open>AM\<close> or \<open>PM\<close>.
\<close>

definition two_digits :: "int \<Rightarrow> string" where
  "two_digits n = [''0123456789'' ! nat (n div 10 mod 10), ''0123456789'' ! nat (n mod 10)]"

definition strftime_IMp :: "int \<Rightarrow> string" where
  "strftime_IMp t =
     (let hour = t div 3600 mod 24; minute = t div 60 mod 60;
          hour12 = (if hour mod 12 = 0 then 12 else hour mod 12)
      in two_digits hour12 @ '':'' @ two_digits minute @ '' ''
           @ (if hour < 12 then ''AM'' else ''PM''))"

text \<open>
  \<^verbatim>\<open>
  hours = np.arange(len(df)) * 1
  df['Hours'] = hours
  df['hours'] = pd.to_timedelta(df['Hours'], unit='h')
  current_time = pd.to_datetime('now') - timedelta(hours=4)
  df['future_time'] = current_time + df['hours']
  df['future_time'] = df['future_time'].dt.strftime('%I:%M %p')\<close>
  The clock reading \<open>now\<close> is an input of the model.
\<close>

record forecast_row = point_row +
  Hours :: nat
  future_time :: string

definition add_future_time :: "int \<Rightarrow> point_row frame \<Rightarrow> forecast_row frame" where
  "add_future_time now df =
     (let hours = [0 ..< length df];
          current_time = now - 4 * 3600
      in map (\<lambda>((index, row), h).
                (index, point_row.extend row
                   \<lparr>Hours = h, future_time = strftime_IMp (current_time + 3600 * int h)\<rparr>))
           (zip df hours))"

definition meteogram_table :: "int \<Rightarrow> point_row list \<Rightarrow> exn + forecast_row frame" where
  "meteogram_table now point_data =
     (case filter_altitude point_data of
        Inl e \<Rightarrow> Inl e
      | Inr df \<Rightarrow> Inr (add_future_time now df))"

section \<open>RAOB Cross Section: vertical interpolation\<close>

text \<open>
  Modelled from the spec: \<open>numpy.interp\<close> is a library routine outside the repository.
  The spec calls it a standard linear 1-D lookup that clamps out-of-range queries to
  the nearest endpoint value; the definitions below follow that description and
  numpy's documented behaviour for increasing sample points \<open>xp\<close>: a query above the
  last sample point gets the last value, a query below the first gets the first value,
  and a query between two neighbouring sample points gets the value on the straight
  line through them.  An empty \<open>xp\<close>, or an \<open>fp\<close> of another length, raises
  \<open>ValueError\<close>.  For sample points that are not increasing numpy promises nothing,
  and neither does the model.

  \<open>interp_index xp x\<close> is the position \<open>j\<close> with \<open>xp[j] \<le> x < xp[j+1]\<close> that numpy
  finds by bisection, here found by walking up from the left.
\<close>

fun interp_index :: "real list \<Rightarrow> real \<Rightarrow> nat" where
  "interp_index (a # b # xp) x = (if b \<le> x then Suc (interp_index (b # xp) x) else 0)"
| "interp_index xp x = 0"

definition interp_at :: "real list \<Rightarrow> real list \<Rightarrow> real \<Rightarrow> real" where
  "interp_at xp fp x =
     (if x > last xp then last fp
      else if x < hd xp then hd fp
      else let j = interp_index xp x
           in if j = length xp - 1 then fp ! j
              else if xp ! j = x then fp ! j
              else (fp ! (j + 1) - fp ! j) / (xp ! (j + 1) - xp ! j) * (x - xp ! j) + fp ! j)"

definition np_interp :: "real list \<Rightarrow> real list \<Rightarrow> real list \<Rightarrow> exn + real list" where
  "np_interp x xp fp =
     (if xp = [] then Inl ValueError
      else if length fp \<noteq> length xp then Inl ValueError
      else Inr (map (interp_at xp fp) x))"

text \<open>
  \<open>data[mask] = v\<close> for a boolean mask as long as the data: the entries under a true
  mask entry become \<open>v\<close>.
\<close>

definition mask_assign :: "'a list \<Rightarrow> bool list \<Rightarrow> 'a \<Rightarrow> 'a list" where
  "mask_assign data mask' v = map (\<lambda>(d, m). if m then v else d) (zip data mask')"

text \<open>
  \<^verbatim>\<open>
  def vertical_interpolate(vcoord_data, interp_var, interp_levels):
      lnp = np.log(vcoord_data)
      lnp_intervals = np.log(interp_levels)
      interp_data = np.interp(lnp_intervals[::-1], lnp[::-1], interp_var[::-1])[::-1]
      mask_low = interp_levels > vcoord_data[0]
      mask_high = interp_levels < vcoord_data[-1]
      interp_data[mask_low] = interp_var[0]
      interp_data[mask_high] = interp_var[-1]
      return interp_data\<close>
  \<open>np.log\<close> is the real logarithm \<open>ln\<close>.  numpy turns a non-positive pressure into a
  not-a-number or infinite entry without raising; the reals have no such values, so
  what the model says about interpolated entries is meant for positive pressures only.
\<close>

definition vertical_interpolate ::
  "real list \<Rightarrow> real list \<Rightarrow> real list \<Rightarrow> exn + real list" where
  "vertical_interpolate vcoord_data interp_var interp_levels =
     (let lnp = map ln vcoord_data;
          lnp_intervals = map ln interp_levels
      in case np_interp (rev lnp_intervals) (rev lnp) (rev interp_var) of
           Inl e \<Rightarrow> Inl e
         | Inr r \<Rightarrow>
             if vcoord_data = [] \<or> interp_var = [] then Inl IndexError
             else let interp_data = rev r;
                      mask_low = map (\<lambda>l. l > hd vcoord_data) interp_levels;
                      mask_high = map (\<lambda>l. l < last vcoord_data) interp_levels;
                      interp_data = mask_assign interp_data mask_low (hd interp_var);
                      interp_data = mask_assign interp_data mask_high (last interp_var)
                  in Inr interp_data)"

section \<open>ACARS Sounding: building the table\<close>

text \<open>
  The fetched text is a Python string, modelled as a list of 8-bit characters (code
  points below 256).  \<open>is_space\<close> is \<open>str.isspace\<close> on those code points.
\<close>

definition is_space :: "char \<Rightarrow> bool" where
  "is_space c \<longleftrightarrow> c \<in> set [CHR 0x09, CHR 0x0A, CHR 0x0B, CHR 0x0C, CHR 0x0D,
     CHR 0x1C, CHR 0x1D, CHR 0x1E, CHR 0x1F, CHR 0x20, CHR 0x85, CHR 0xA0]"

text \<open>\<open>s.strip()\<close>: white space removed from both ends.\<close>

definition py_strip :: "string \<Rightarrow> string" where
  "py_strip s = rev (dropWhile is_space (rev (dropWhile is_space s)))"

text \<open>
  \<open>s.split(sep)\<close> for a one-character separator: the pieces between the separators,
  always at least one piece.
\<close>

fun split_on :: "char \<Rightarrow> string \<Rightarrow> string list" where
  "split_on sep [] = [[]]"
| "split_on sep (c # cs) =
     (if c = sep then [] # split_on sep cs
      else (case split_on sep cs of
              w # ws \<Rightarrow> (c # w) # ws
            | [] \<Rightarrow> [[c]]))"

text \<open>
  \<open>s.find(sub)\<close>: the lowest index at which \<open>sub\<close> occurs in \<open>s\<close>, or \<open>-1\<close> when it
  does not occur.
\<close>

fun find_from :: "string \<Rightarrow> string \<Rightarrow> nat \<Rightarrow> int" where
  "find_from sub [] i = (if sub = [] then int i else - 1)"
| "find_from sub (c # s) i =
     (if prefix sub (c # s) then int i else find_from sub s (Suc i))"

definition py_find :: "string \<Rightarrow> string \<Rightarrow> int" where
  "py_find s sub = find_from sub s 0"

text \<open>
  \<open>s[start:stop]\<close>: a negative index counts from the end, and both indices are
  clipped to the string.
\<close>

definition py_slice :: "string \<Rightarrow> int \<Rightarrow> int \<Rightarrow> string" where
  "py_slice s start stop =
     (let n = int (length s);
          lo = (if start < 0 then max (start + n) 0 else min start n);
          hi = (if stop < 0 then max (stop + n) 0 else min stop n)
      in drop (nat lo) (take (nat hi) s))"

text \<open>
  A row of the table, with its six columns.  \<open>pd.DataFrame([values], columns=[...])\<close>
  raises \<open>ValueError\<close> unless \<open>values\<close> has exactly six entries.
\<close>

record 'a sounding_row =
  LEVEL :: 'a
  HGHT :: 'a
  TEMP :: 'a
  DWPT :: 'a
  WDIR :: 'a
  WSPD :: 'a

definition make_row :: "'a list \<Rightarrow> exn + 'a sounding_row" where
  "make_row values =
     (if length values = 6
      then Inr \<lparr>LEVEL = values ! 0, HGHT = values ! 1, TEMP = values ! 2,
                DWPT = values ! 3, WDIR = values ! 4, WSPD = values ! 5\<rparr>
      else Inl ValueError)"

text \<open>
  \<^verbatim>\<open>
  for line in lines:
      line = line.strip()
      if line:
          values = line.split(',')
          temp_df = pd.DataFrame([values], columns=['LEVEL', 'HGHT', 'TEMP', 'DWPT', 'WDIR', 'WSPD'])
          df = df.append(temp_df, ignore_index=True)\<close>
\<close>

fun append_rows ::
  "string list \<Rightarrow> string sounding_row list \<Rightarrow> exn + string sounding_row list" where
  "append_rows [] df = Inr df"
| "append_rows (line # lines) df =
     (let line' = py_strip line
      in if line' \<noteq> [] then
           (let values = split_on CHR '','' line'
            in case make_row values of
                 Inl e \<Rightarrow> Inl e
               | Inr temp_df \<Rightarrow> append_rows lines (df @ [temp_df]))
         else append_rows lines df)"

text \<open>
  \<open>df.apply(pd.to_numeric, errors='coerce')\<close>: every cell is replaced by the number
  it denotes, or by not-a-number when it denotes none.  Which strings denote which
  numbers is decided by pandas, so the reader \<open>tn\<close> is a parameter.
\<close>

definition coerce :: "(string \<Rightarrow> pyfloat option) \<Rightarrow> string \<Rightarrow> pyfloat" where
  "coerce tn s = (case tn s of Some v \<Rightarrow> v | None \<Rightarrow> NaN)"

definition map_row :: "('a \<Rightarrow> 'b) \<Rightarrow> 'a sounding_row \<Rightarrow> 'b sounding_row" where
  "map_row f r = \<lparr>LEVEL = f (LEVEL r), HGHT = f (HGHT r), TEMP = f (TEMP r),
                   DWPT = f (DWPT r), WDIR = f (WDIR r), WSPD = f (WSPD r)\<rparr>"

text \<open>
  \<^verbatim>\<open>
  start_pos = data.find("%RAW%") + len("%RAW%")
  end_pos = data.find("%END%")
  data_section = data[start_pos:end_pos].strip()
  lines = data_section.split('\n')
  lines = lines[1:]
  ... the loop above ...
  df = df.apply(pd.to_numeric, errors='coerce')\<close>
\<close>

definition acars_table ::
  "(string \<Rightarrow> pyfloat option) \<Rightarrow> string \<Rightarrow> exn + pyfloat sounding_row list" where
  "acars_table tn data =
     (let start_pos = py_find data ''%RAW%'' + int (length ''%RAW%'');
          end_pos = py_find data ''%END%'';
          data_section = py_strip (py_slice data start_pos end_pos);
          lines = split_on CHR 0x0A data_section;
          lines = drop 1 lines
      in case append_rows lines [] of
           Inl e \<Rightarrow> Inl e
         | Inr df \<Rightarrow> Inr (map (map_row (coerce tn)) df))"

text \<open>
  A reader of unsigned decimal integers, used to run the table construction on sample
  responses: on a string of digits it returns the number that \<open>pd.to_numeric\<close>
  returns; it is applied to such strings and to tokens that denote no number.
\<close>

fun decimal_value :: "string \<Rightarrow> nat \<Rightarrow> nat option" where
  "decimal_value [] n = Some n"
| "decimal_value (c # cs) n =
     (if c \<in> set ''0123456789''
      then decimal_value cs (10 * n + (of_char c - 48))
      else None)"

definition read_decimal :: "string \<Rightarrow> pyfloat option" where
  "read_decimal s =
     (if s = [] then None
      else case decimal_value s 0 of
             Some n \<Rightarrow> Some (Finite (real n))
           | None \<Rightarrow> None)"

text \<open>The same reader with an optional minus sign in front.\<close>

definition read_signed :: "string \<Rightarrow> pyfloat option" where
  "read_signed s =
     (case s of
        c # ds \<Rightarrow>
          if c = CHR ''-'' then
            (case read_decimal ds of
               Some (Finite x) \<Rightarrow> Some (Finite (- x))
             | _ \<Rightarrow> None)
          else read_decimal s
      | [] \<Rightarrow> None)"

text \<open>
  A sample block of sounding text as it stands between the sentinels: thirteen levels
  from 1000 to 500 hPa with height, temperature, dew point, wind direction and wind
  speed, one level per line.
\<close>

definition sample_block :: string where
  "sample_block =
     [CHR 0x0A] @ ''1000,110,28,20,180,8'' @ [CHR 0x0A] @
     ''975,330,26,19,185,10'' @ [CHR 0x0A] @
     ''950,560,24,18,190,12'' @ [CHR 0x0A] @
     ''925,790,22,16,195,15'' @ [CHR 0x0A] @
     ''900,1020,20,14,200,18'' @ [CHR 0x0A] @
     ''850,1500,16,11,210,22'' @ [CHR 0x0A] @
     ''800,2010,12,7,220,25'' @ [CHR 0x0A] @
     ''750,2550,8,2,230,28'' @ [CHR 0x0A] @
     ''700,3120,4,-3,240,32'' @ [CHR 0x0A] @
     ''650,3730,0,-9,245,36'' @ [CHR 0x0A] @
     ''600,4380,-5,-15,250,40'' @ [CHR 0x0A] @
     ''550,5080,-10,-22,255,45'' @ [CHR 0x0A] @
     ''500,5840,-16,-30,260,50'' @ [CHR 0x0A]"

definition sample_response :: string where
  "sample_response =
     ''%TITLE%'' @ [CHR 0x0A] @ '' YNN   230702/1620'' @ [CHR 0x0A] @ [CHR 0x0A] @
     ''   LEVEL       HGHT       TEMP       DWPT       WDIR       WSPD'' @ [CHR 0x0A] @
     ''-------------------------------------------------------------------'' @ [CHR 0x0A] @
     ''%RAW%'' @ sample_block @ ''%END%'' @ [CHR 0x0A]"

text \<open>
  The table as the specification describes it, as a function of the text of the block
  alone: the block is stripped and cut into lines, the first line is skipped, the
  remaining lines are stripped and the empty ones dropped (\<open>block_rows\<close>); every row is
  split on commas into the six columns and every cell is coerced to a number.  A row
  that does not split into exactly six fields cannot fill the six columns.
\<close>

definition block_rows :: "string \<Rightarrow> string list" where
  "block_rows block =
     filter (\<lambda>l. l \<noteq> []) (map py_strip (drop 1 (split_on CHR 0x0A (py_strip block))))"

definition block_table ::
  "(string \<Rightarrow> pyfloat option) \<Rightarrow> string \<Rightarrow> exn + pyfloat sounding_row list" where
  "block_table tn block =
     (if list_all (\<lambda>l. length (split_on CHR '','' l) = 6) (block_rows block)
      then Inr (map (\<lambda>l. \<lparr>LEVEL = coerce tn (split_on CHR '','' l ! 0),
                           HGHT = coerce tn (split_on CHR '','' l ! 1),
                           TEMP = coerce tn (split_on CHR '','' l ! 2),
                           DWPT = coerce tn (split_on CHR '','' l ! 3),
                           WDIR = coerce tn (split_on CHR '','' l ! 4),
                           WSPD = coerce tn (split_on CHR '','' l ! 5)\<rparr>)
                  (block_rows block))
      else Inl ValueError)"

section \<open>The outbound requests of the scripts\<close>

text \<open>
  The network is a function from the requested address to the exception the request
  raises or the response it returns.  A run of a script yields the list of the
  requests it made, in order, and its result; a request that raises ends the run.
\<close>

type_synonym 'r net = "string \<Rightarrow> exn + 'r"

text \<open>
  ACARS Sounding: \<open>urllib.request.urlopen(url)\<close> once, then the table is built from the
  response text.  Lines 48 to 104 compute the profiles and draw the figure from the
  table; they make no request and contain no \<open>try\<close>.  They are the parameter \<open>plot\<close>,
  which returns the figure or the exception that the plotting code raises on the table.
\<close>

definition acars_url :: string where
  "acars_url = ''https://sharp.weather.ou.edu/soundings/acars/2023/07/02/16/YNN_1620.txt''"

definition acars_script ::
  "string net \<Rightarrow> (string \<Rightarrow> pyfloat option) \<Rightarrow> (pyfloat sounding_row list \<Rightarrow> exn + 'p)
     \<Rightarrow> string list \<times> (exn + 'p)" where
  "acars_script net tn plot =
     (case net acars_url of
        Inl e \<Rightarrow> ([acars_url], Inl e)
      | Inr data \<Rightarrow>
          ([acars_url],
           case acars_table tn data of
             Inl e \<Rightarrow> Inl e
           | Inr df \<Rightarrow> plot df))"

text \<open>
  Warning/LSR: \<open>pd.read_csv\<close> on three report addresses (lines 14, 18 and 22), the
  conversion loop, \<open>requests.get\<close> on the warnings address (line 33), the conversion
  loop again and the plots.  A response is represented by the \<open>Speed\<close> column it
  carries, which only the wind reports use; the handling of the warnings document and
  of the hail and tornado reports makes no request and is left out.
\<close>

definition tor_url :: string where
  "tor_url = ''https://www.spc.noaa.gov/climo/reports/230615_rpts_torn.csv''"

definition hail_url :: string where
  "hail_url = ''https://www.spc.noaa.gov/climo/reports/230615_rpts_hail.csv''"

definition wind_url :: string where
  "wind_url = ''https://www.spc.noaa.gov/climo/reports/230615_rpts_wind.csv''"

definition cow_url :: string where
  "cow_url = ''https://mesonet.agron.iastate.edu/api/1/cow.json?wfo=DTX&begints=2023-06-15T12:00:00Z&endts=2023-06-16T12:00:00Z&hailsize=1&wind=58&phenomena=TO&phenomena=SV&phenomena=MA&phenomena=FF&phenomena=DS&lsrbuffer=15&warningbuffer=1''"

definition warning_lsr_script ::
  "cell list net \<Rightarrow> (string \<Rightarrow> pyfloat option)
     \<Rightarrow> string list \<times> (exn + (nat \<times> marker) list)" where
  "warning_lsr_script net pf =
     (case net tor_url of
        Inl e \<Rightarrow> ([tor_url], Inl e)
      | Inr df_tor \<Rightarrow>
     (case net hail_url of
        Inl e \<Rightarrow> ([tor_url, hail_url], Inl e)
      | Inr df_hail \<Rightarrow>
     (case net wind_url of
        Inl e \<Rightarrow> ([tor_url, hail_url, wind_url], Inl e)
      | Inr speed \<Rightarrow>
     (case convert_speeds pf speed of
        (Some e, _) \<Rightarrow> ([tor_url, hail_url, wind_url], Inl e)
      | (None, speed1) \<Rightarrow>
     (case net cow_url of
        Inl e \<Rightarrow> ([tor_url, hail_url, wind_url, cow_url], Inl e)
      | Inr response \<Rightarrow>
     (case convert_speeds pf speed1 of
        (Some e, _) \<Rightarrow> ([tor_url, hail_url, wind_url, cow_url], Inl e)
      | (None, speed2) \<Rightarrow>
          ([tor_url, hail_url, wind_url, cow_url], plot_wind speed2)))))))"

text \<open>
  RAOB Cross Section:
  \<^verbatim>\<open>
  stn_list = ['LBF', 'OAX', 'DVN', 'DTX', 'BUF']
  for station in stn_list:
      df[station] = WyomingUpperAir.request_data(date, station)\<close>
  One request per station, for a fixed date; a request is named by its station.
\<close>

definition stn_list :: "string list" where
  "stn_list = [''LBF'', ''OAX'', ''DVN'', ''DTX'', ''BUF'']"

fun request_loop :: "'r net \<Rightarrow> string list \<Rightarrow> (string \<times> 'r) list
    \<Rightarrow> string list \<times> (exn + (string \<times> 'r) list)" where
  "request_loop net [] df = ([], Inr df)"
| "request_loop net (station # rest) df =
     (case net station of
        Inl e \<Rightarrow> ([station], Inl e)
      | Inr r \<Rightarrow>
          (case request_loop net rest (df @ [(station, r)]) of
             (reqs, res) \<Rightarrow> (station # reqs, res)))"

definition raob_requests :: "'r net \<Rightarrow> string list \<times> (exn + (string \<times> 'r) list)" where
  "raob_requests net = request_loop net stn_list []"

section \<open>Properties of the rounding helpers\<close>

lemma py_round_lower: "y - 1 / 2 \<le> of_int (py_round y)"
  unfolding py_round_def Let_def by simp linarith

lemma py_round_upper: "of_int (py_round y) \<le> y + 1 / 2"
  unfolding py_round_def Let_def by simp linarith

lemma py_round_error: "\<bar>of_int (py_round y) - y\<bar> \<le> 1 / 2"
  using py_round_lower [of y] py_round_upper [of y] by linarith

lemma fl64_error: "\<bar>fl64 x - x\<bar> \<le> \<bar>x\<bar> / 2 ^ 53"
proof (cases "x = 0")
  case True
  then show ?thesis by (simp add: fl64_def)
next
  case False
  define e where "e = \<lfloor>log 2 \<bar>x\<bar>\<rfloor>"
  define u :: real where "u = 2 powr (of_int e - 52)"
  have u: "0 < u" by (simp add: u_def)
  have "2 powr of_int e \<le> 2 powr (log 2 \<bar>x\<bar>)"
    unfolding e_def by (intro powr_mono) simp_all
  also have "\<dots> = \<bar>x\<bar>" using False by simp
  finally have ux: "u \<le> \<bar>x\<bar> / 2 ^ 52"
    by (simp add: u_def powr_diff field_simps)
  have "fl64 x - x = u * (of_int (py_round (x / u)) - x / u)"
    using False u by (simp add: fl64_def e_def u_def Let_def field_simps)
  then have "\<bar>fl64 x - x\<bar> = u * \<bar>of_int (py_round (x / u)) - x / u\<bar>"
    using u by (simp add: abs_mult)
  also have "\<dots> \<le> u * (1 / 2)"
    using u py_round_error [of "x / u"] by (intro mult_left_mono) simp_all
  also have "\<dots> \<le> \<bar>x\<bar> / 2 ^ 53" using ux by simp
  finally show ?thesis .
qed

lemma fl64_binade:
  assumes "2 ^ n \<le> \<bar>x\<bar>" "\<bar>x\<bar> < 2 ^ Suc n"
  shows "fl64 x = of_int (py_round (x * 2 ^ 52 / 2 ^ n)) * 2 ^ n / 2 ^ 52"
proof -
  have pos: "0 < \<bar>x\<bar>" using assms(1) by (smt (verit) zero_less_power)
  have "real n \<le> log 2 \<bar>x\<bar>" using assms(1) pos by (simp add: le_log_iff powr_realpow)
  moreover have "log 2 \<bar>x\<bar> < real (Suc n)"
  proof -
    have "log 2 \<bar>x\<bar> < log 2 (2 ^ Suc n)"
      using assms(2) pos by (subst log_less_cancel_iff) simp_all
    also have "\<dots> = real (Suc n)" by (simp add: log_nat_power del: power_Suc)
    finally show ?thesis .
  qed
  ultimately have e: "\<lfloor>log 2 \<bar>x\<bar>\<rfloor> = int n" by (simp add: floor_eq_iff)
  have u: "2 powr (real n - 52) = (2 ^ n / 2 ^ 52 :: real)"
    by (simp add: powr_diff powr_realpow)
  from pos have "x \<noteq> 0" by auto
  then show ?thesis by (simp add: fl64_def e u Let_def)
qed


lemma round5_error:
  "\<bar>of_int (5 * py_round (fl64 (fl64 y / 5))) - y\<bar> \<le> 5 / 2 + \<bar>y\<bar> / 2 ^ 51"
proof -
  define a where "a = fl64 y"
  define q where "q = fl64 (a / 5)"
  define k where "k = py_round q"
  have a: "\<bar>a - y\<bar> \<le> \<bar>y\<bar> / 2 ^ 53" unfolding a_def by (rule fl64_error)
  moreover have "\<bar>y\<bar> / 2 ^ 53 \<le> \<bar>y\<bar>" by (simp add: field_simps)
  ultimately have a2: "\<bar>a\<bar> \<le> 2 * \<bar>y\<bar>" by linarith
  have "\<bar>q - a / 5\<bar> \<le> \<bar>a / 5\<bar> / 2 ^ 53" unfolding q_def by (rule fl64_error)
  then have q5: "5 * \<bar>q - a / 5\<bar> \<le> 5 * (\<bar>a / 5\<bar> / 2 ^ 53)" by simp
  have eq5: "5 * q - a = 5 * (q - a / 5)" by simp
  have "\<bar>5 * q - a\<bar> = \<bar>5 * (q - a / 5)\<bar>" by (simp only: eq5)
  also have "\<dots> = 5 * \<bar>q - a / 5\<bar>" by (simp only: abs_mult abs_numeral)
  also note q5
  also have "5 * (\<bar>a / 5\<bar> / 2 ^ 53) = \<bar>a\<bar> / 2 ^ 53" by simp
  finally have q: "\<bar>5 * q - a\<bar> \<le> \<bar>a\<bar> / 2 ^ 53" .
  have k: "\<bar>of_int k - q\<bar> \<le> 1 / 2" unfolding k_def by (rule py_round_error)
  have k5: "\<bar>5 * k' - 5 * q\<bar> = 5 * \<bar>k' - q\<bar>" for k' :: real
  proof -
    have "5 * k' - 5 * q = 5 * (k' - q)" by simp
    then have "\<bar>5 * k' - 5 * q\<bar> = \<bar>5 * (k' - q)\<bar>" by (simp only:)
    then show ?thesis by (simp only: abs_mult abs_numeral)
  qed
  have "\<bar>5 * of_int k - y\<bar> \<le> \<bar>5 * of_int k - a\<bar> + \<bar>a - y\<bar>" by linarith
  moreover have "\<bar>5 * of_int k - a\<bar> \<le> \<bar>5 * of_int k - 5 * q\<bar> + \<bar>5 * q - a\<bar>" by linarith
  ultimately have "\<bar>of_int (5 * k) - y\<bar> \<le> 5 * \<bar>of_int k - q\<bar> + \<bar>5 * q - a\<bar> + \<bar>a - y\<bar>"
    using k5 [of "of_int k"] by simp
  also have "\<dots> \<le> 5 / 2 + \<bar>a\<bar> / 2 ^ 53 + \<bar>y\<bar> / 2 ^ 53" using k q a by linarith
  also have "\<dots> \<le> 5 / 2 + \<bar>y\<bar> / 2 ^ 51" using a2 by (simp add: field_simps)
  finally show ?thesis by (simp add: k_def q_def a_def)
qed

lemma roundup_5: "roundup x 5 = Inr (5 * py_round (fl64 (fl64 (x + 5) / 5)))"
  by (simp add: roundup_def)

lemma rounddown_5: "rounddown x 5 = Inr (5 * py_round (fl64 (fl64 (x - 5) / 5)))"
  by (simp add: rounddown_def)

lemma roundup_5_bounds:
  "x + 5 / 2 - (\<bar>x\<bar> + 5) / 2 ^ 51 \<le> of_int (5 * py_round (fl64 (fl64 (x + 5) / 5)))"
  "of_int (5 * py_round (fl64 (fl64 (x + 5) / 5))) \<le> x + 15 / 2 + (\<bar>x\<bar> + 5) / 2 ^ 51"
proof -
  have "\<bar>x + 5\<bar> / 2 ^ 51 \<le> (\<bar>x\<bar> + 5) / 2 ^ 51" by (intro divide_right_mono) simp_all
  with round5_error [of "x + 5"]
  have "\<bar>of_int (5 * py_round (fl64 (fl64 (x + 5) / 5))) - (x + 5)\<bar> \<le> 5 / 2 + (\<bar>x\<bar> + 5) / 2 ^ 51"
    by linarith
  then show "x + 5 / 2 - (\<bar>x\<bar> + 5) / 2 ^ 51 \<le> of_int (5 * py_round (fl64 (fl64 (x + 5) / 5)))"
    "of_int (5 * py_round (fl64 (fl64 (x + 5) / 5))) \<le> x + 15 / 2 + (\<bar>x\<bar> + 5) / 2 ^ 51"
    by linarith+
qed

lemma rounddown_5_bounds:
  "x - 15 / 2 - (\<bar>x\<bar> + 5) / 2 ^ 51 \<le> of_int (5 * py_round (fl64 (fl64 (x - 5) / 5)))"
  "of_int (5 * py_round (fl64 (fl64 (x - 5) / 5))) \<le> x - 5 / 2 + (\<bar>x\<bar> + 5) / 2 ^ 51"
proof -
  have "\<bar>x - 5\<bar> / 2 ^ 51 \<le> (\<bar>x\<bar> + 5) / 2 ^ 51" by (intro divide_right_mono) simp_all
  with round5_error [of "x - 5"]
  have "\<bar>of_int (5 * py_round (fl64 (fl64 (x - 5) / 5))) - (x - 5)\<bar> \<le> 5 / 2 + (\<bar>x\<bar> + 5) / 2 ^ 51"
    by linarith
  then show "x - 15 / 2 - (\<bar>x\<bar> + 5) / 2 ^ 51 \<le> of_int (5 * py_round (fl64 (fl64 (x - 5) / 5)))"
    "of_int (5 * py_round (fl64 (fl64 (x - 5) / 5))) \<le> x - 5 / 2 + (\<bar>x\<bar> + 5) / 2 ^ 51"
    by linarith+
qed

lemma small_slack: "\<bar>x\<bar> \<le> 2 ^ 50 \<Longrightarrow> (\<bar>x\<bar> + 5) / 2 ^ 51 < 1" for x :: real
  by simp

lemma roundup_5_above: "\<bar>x\<bar> \<le> 2 ^ 50 \<Longrightarrow> x < of_int (5 * py_round (fl64 (fl64 (x + 5) / 5)))"
  using roundup_5_bounds(1) [of x] small_slack [of x] by linarith

lemma rounddown_5_below: "\<bar>x\<bar> \<le> 2 ^ 50 \<Longrightarrow> of_int (5 * py_round (fl64 (fl64 (x - 5) / 5))) < x"
  using rounddown_5_bounds(2) [of x] small_slack [of x] by linarith

text \<open>
  C9.  In float arithmetic, for every \<open>x\<close> of magnitude at most \<open>2\<^sup>5\<^sup>0\<close> and the default
  base 5, \<open>roundup x\<close> is 5 times the rounded float quotient of the float sum \<open>x + 5\<close>
  by 5, a multiple of 5 between \<open>x + 2.5\<close> and \<open>x + 7.5\<close> up to the rounding slack
  \<open>(|x| + 5) / 2\<^sup>5\<^sup>1\<close>, and \<open>rounddown x\<close> likewise a multiple of 5 between \<open>x - 7.5\<close>
  and \<open>x - 2.5\<close> up to that slack; the slack is below 1, so
  \<open>rounddown x < x < roundup x\<close>, and the y-axis limits computed from the smallest dew
  point and the largest temperature lie strictly outside all plotted values.
\<close>

theorem roundup_rounddown_bracket:
  assumes "\<bar>x\<bar> \<le> 2 ^ 50"
  shows "\<exists>u d. roundup x 5 = Inr u \<and> rounddown x 5 = Inr d
     \<and> u = 5 * py_round (fl64 (fl64 (x + 5) / 5))
     \<and> d = 5 * py_round (fl64 (fl64 (x - 5) / 5))
     \<and> 5 dvd u \<and> 5 dvd d
     \<and> x + 5 / 2 - (\<bar>x\<bar> + 5) / 2 ^ 51 \<le> of_int u
     \<and> of_int u \<le> x + 15 / 2 + (\<bar>x\<bar> + 5) / 2 ^ 51
     \<and> x - 15 / 2 - (\<bar>x\<bar> + 5) / 2 ^ 51 \<le> of_int d
     \<and> of_int d \<le> x - 5 / 2 + (\<bar>x\<bar> + 5) / 2 ^ 51
     \<and> of_int d < x \<and> x < of_int u
     \<and> (\<forall>dewpf tairf. dewpf \<noteq> [] \<and> tairf \<noteq> []
            \<and> (\<forall>v \<in> set dewpf \<union> set tairf. \<bar>v\<bar> \<le> 2 ^ 50) \<longrightarrow>
          (\<exists>lo hi. meteogram_ylim dewpf tairf = Inr (lo, hi)
             \<and> (\<forall>v \<in> set dewpf. of_int lo < v) \<and> (\<forall>v \<in> set tairf. v < of_int hi)))"
proof -
  let ?u = "5 * py_round (fl64 (fl64 (x + 5) / 5))"
  let ?d = "5 * py_round (fl64 (fl64 (x - 5) / 5))"
  have ylim: "\<exists>lo hi. meteogram_ylim dewpf tairf = Inr (lo, hi)
             \<and> (\<forall>v \<in> set dewpf. of_int lo < v) \<and> (\<forall>v \<in> set tairf. v < of_int hi)"
    if ne: "dewpf \<noteq> []" "tairf \<noteq> []"
      and small: "\<forall>v \<in> set dewpf \<union> set tairf. \<bar>v\<bar> \<le> 2 ^ 50"
    for dewpf tairf :: "real list"
  proof -
    let ?m = "Min (set dewpf)" and ?M = "Max (set tairf)"
    let ?lo = "5 * py_round (fl64 (fl64 (?m - 5) / 5))"
    let ?hi = "5 * py_round (fl64 (fl64 (?M + 5) / 5))"
    have "?m \<in> set dewpf" "?M \<in> set tairf" using ne by simp_all
    with small have sm: "\<bar>?m\<bar> \<le> 2 ^ 50" "\<bar>?M\<bar> \<le> 2 ^ 50" by blast+
    have eq: "meteogram_ylim dewpf tairf = Inr (?lo, ?hi)"
      using ne by (simp add: meteogram_ylim_def roundup_5 rounddown_5)
    have lo: "of_int ?lo < v" if "v \<in> set dewpf" for v
    proof -
      have "?m \<le> v" using that by simp
      with rounddown_5_below [OF sm(1)] show ?thesis by linarith
    qed
    have hi: "v < of_int ?hi" if "v \<in> set tairf" for v
    proof -
      have "v \<le> ?M" using that by simp
      with roundup_5_above [OF sm(2)] show ?thesis by linarith
    qed
    from eq lo hi show ?thesis by blast
  qed
  show ?thesis
    using roundup_5 [of x] rounddown_5 [of x] roundup_5_bounds [of x]
      rounddown_5_bounds [of x] roundup_5_above [OF assms] rounddown_5_below [OF assms] ylim
    by (intro exI [of _ ?u] exI [of _ ?d]) (simp del: of_int_mult)
qed

theorem roundup_rounddown_bracket_witness:
  "\<bar>72 :: real\<bar> \<le> 2 ^ 50 \<and> \<bar>61 :: real\<bar> \<le> 2 ^ 50
   \<and> roundup 72 5 = Inr 75 \<and> rounddown 61 5 = Inr 55
   \<and> meteogram_ylim [61, 63] [70, 72] = Inr (55, 75)"
proof -
  have h: "\<bar>72 :: real\<bar> \<le> 2 ^ 50" "\<bar>61 :: real\<bar> \<le> 2 ^ 50" by simp_all
  from roundup_rounddown_bracket [OF h(1)]
  obtain u where u: "roundup 72 5 = Inr u" "5 dvd u"
    "72 + 5 / 2 - (\<bar>72\<bar> + 5) / 2 ^ 51 \<le> (of_int u :: real)"
    "(of_int u :: real) \<le> 72 + 15 / 2 + (\<bar>72\<bar> + 5) / 2 ^ 51"
    by blast
  from roundup_rounddown_bracket [OF h(2)]
  obtain d where d: "rounddown 61 5 = Inr d" "5 dvd d"
    "61 - 15 / 2 - (\<bar>61\<bar> + 5) / 2 ^ 51 \<le> (of_int d :: real)"
    "(of_int d :: real) \<le> 61 - 5 / 2 + (\<bar>61\<bar> + 5) / 2 ^ 51"
    by blast
  from u(3,4) have "(74 :: real) < of_int u" "(of_int u :: real) < 80" by simp_all
  then have "74 < u" "u < 80" by linarith+
  with u(2) have u75: "u = 75" by presburger
  from d(3,4) have "(53 :: real) < of_int d" "(of_int d :: real) < 59" by simp_all
  then have "53 < d" "d < 59" by linarith+
  with d(2) have d55: "d = 55" by presburger
  have "Min (set [61, 63 :: real]) = 61" "Max (set [70, 72 :: real]) = 72" by simp_all
  then have "meteogram_ylim [61, 63] [70, 72] = Inr (55, 75)"
    using u(1) d(1) u75 d55 by (simp add: meteogram_ylim_def)
  with h u(1) d(1) u75 d55 show ?thesis by simp
qed

lemma fl64_representable:
  assumes "2 ^ n \<le> \<bar>x\<bar>" "\<bar>x\<bar> < 2 ^ Suc n" "x * 2 ^ 52 / 2 ^ n = of_int m"
  shows "fl64 x = x"
proof -
  have "py_round (of_int m) = m" by (simp add: py_round_def)
  with fl64_binade [OF assms(1,2)] assms(3) have "fl64 x = of_int m * 2 ^ n / 2 ^ 52" by simp
  also have "\<dots> = x" using assms(3) [symmetric] by simp
  finally show ?thesis .
qed

lemma fl64_tie_sample: "fl64 (25 / 2 + 1 / 2 ^ 50) = 25 / 2"
proof -
  have "fl64 (25 / 2 + 1 / 2 ^ 50) = of_int (py_round ((25 / 2 + 1 / 2 ^ 50) * 2 ^ 52 / 2 ^ 3)) * 2 ^ 3 / 2 ^ 52"
  proof (rule fl64_binade)
    show "2 ^ 3 \<le> \<bar>25 / 2 + 1 / 2 ^ 50 :: real\<bar>" by simp
    show "\<bar>25 / 2 + 1 / 2 ^ 50 :: real\<bar> < 2 ^ Suc 3" by simp
  qed
  also have "(25 / 2 + 1 / 2 ^ 50) * 2 ^ 52 / 2 ^ 3 = (14073748835532801 / 2 :: real)" by simp
  also have "py_round (14073748835532801 / 2) = 7036874417766400"
    by (simp add: py_round_def Let_def)
  finally show ?thesis by simp
qed

lemma fl64_sample_input: "fl64 (15 / 2 + 1 / 2 ^ 50) = 15 / 2 + 1 / 2 ^ 50"
  by (rule fl64_representable [of 2 _ 8444249301319681]) simp_all

lemma fl64_sample_quotient: "fl64 (5 / 2) = 5 / 2"
  by (rule fl64_representable [of 1 _ 5629499534213120]) simp_all

lemma fl64_sample_large: "fl64 (100000000000000000 + 5) = 100000000000000000"
proof -
  have "fl64 (100000000000000000 + 5)
      = of_int (py_round ((100000000000000000 + 5) * 2 ^ 52 / 2 ^ 56)) * 2 ^ 56 / 2 ^ 52"
  proof (rule fl64_binade)
    show "2 ^ 56 \<le> \<bar>100000000000000000 + 5 :: real\<bar>" by simp
    show "\<bar>100000000000000000 + 5 :: real\<bar> < 2 ^ Suc 56" by simp
  qed
  also have "(100000000000000000 + 5) * 2 ^ 52 / 2 ^ 56 = (100000000000000005 / 16 :: real)"
    by simp
  also have "py_round (100000000000000005 / 16) = 6250000000000000"
    by (simp add: py_round_def Let_def)
  finally show ?thesis by simp
qed

lemma fl64_sample_large_quotient: "fl64 20000000000000000 = 20000000000000000"
  by (rule fl64_representable [of 54 _ 5000000000000000]) simp_all

lemma roundup_large_sample:
  "roundup 100000000000000000 5 = Inr 100000000000000000"
proof -
  have "roundup 100000000000000000 5
      = Inr (5 * py_round (fl64 (100000000000000000 / 5)))"
    by (simp only: roundup_5 fl64_sample_large)
  also have "fl64 (100000000000000000 / 5) = 20000000000000000"
    using fl64_sample_large_quotient by simp
  also have "py_round 20000000000000000 = 20000000000000000"
    by (simp add: py_round_def Let_def)
  finally show ?thesis by simp
qed

text \<open>
  The bounds without the slack fail in float arithmetic.  At the float
  \<open>7.5 + 2\<^sup>-\<^sup>5\<^sup>0\<close> the sum \<open>x + 5\<close> rounds to 12.5, the quotient is the tie 2.5, and
  \<open>roundup\<close> returns 10, below \<open>x + 2.5\<close>.  At \<open>10\<^sup>1\<^sup>7\<close> the sum \<open>x + 5\<close> rounds back to
  \<open>x\<close> and \<open>roundup\<close> returns \<open>x\<close> itself.
\<close>

theorem roundup_rounding_counterexample:
  "fl64 (15 / 2 + 1 / 2 ^ 50) = 15 / 2 + 1 / 2 ^ 50
   \<and> roundup (15 / 2 + 1 / 2 ^ 50) 5 = Inr 10
   \<and> \<not> (15 / 2 + 1 / 2 ^ 50) + 5 / 2 \<le> real_of_int 10
   \<and> roundup 100000000000000000 5 = Inr 100000000000000000
   \<and> \<not> (100000000000000000 :: real) < real_of_int 100000000000000000"
proof -
  have "15 / 2 + 1 / 2 ^ 50 + 5 = (25 / 2 + 1 / 2 ^ 50 :: real)" by simp
  then have "roundup (15 / 2 + 1 / 2 ^ 50) 5 = Inr (5 * py_round (fl64 (25 / 2 / 5)))"
    by (simp only: roundup_5 fl64_tie_sample)
  also have "fl64 (25 / 2 / 5) = 5 / 2" using fl64_sample_quotient by simp
  also have "py_round (5 / 2) = 2" by (simp add: py_round_def Let_def)
  finally show ?thesis using fl64_sample_input roundup_large_sample by simp
qed

section \<open>Properties of the cross-section grids\<close>

lemma np_arange_default: "np_arange 1000 (100 - 1) (- 10) = Inr (map (\<lambda>i. 1000 - 10 * int i) [0 ..< 91])"
  by (simp add: np_arange_def)

lemma np_linspace_100:
  "length (np_linspace a b 100) = 100"
  "hd (np_linspace a b 100) = a"
  "last (np_linspace a b 100) = b"
  by (simp_all add: np_linspace_def hd_append hd_map upt_conv_Cons)

lemma has_shape_meshgrid:
  "has_shape (fst (np_meshgrid xs ys)) (length ys) (length xs)"
  "has_shape (snd (np_meshgrid xs ys)) (length ys) (length xs)"
  by (simp_all add: np_meshgrid_def has_shape_def list_all_iff)

text \<open>
  C8.  With the defaults \<open>start = 1000\<close>, \<open>end = 100\<close>, \<open>step = 10\<close> the vertical grid
  has exactly 91 levels, 1000, 990, ..., 100, the horizontal grid has exactly 100 points
  running from the first to the last station distance, and the meshes and every
  \<open>grid_data\<close> array have shape 100 by 91: 91 vertical points, not 90.
\<close>

theorem cross_section_default_shape:
  assumes "dists \<noteq> []"
  shows "\<exists>g. cross_section_grids dists 1000 100 10 = Inr g
     \<and> vertical_levels g = map (\<lambda>i. 1000 - 10 * int i) [0 ..< 91]
     \<and> plevs g = 91 \<and> hd (vertical_levels g) = 1000 \<and> last (vertical_levels g) = 100
     \<and> nx g = 100 \<and> length (x_points g) = 100
     \<and> hd (x_points g) = hd dists \<and> last (x_points g) = last dists
     \<and> has_shape (p_grid g) 100 91 \<and> has_shape (x_grid g) 100 91
     \<and> grid_data_shape g = (100, 91) \<and> snd (grid_data_shape g) \<noteq> 90"
proof -
  let ?levels = "map (\<lambda>i. 1000 - 10 * int i) [0 ..< 91]"
  let ?x = "np_linspace (hd dists) (last dists) 100"
  let ?g = "\<lparr>vertical_levels = ?levels, plevs = length ?levels,
             x_points = ?x, nx = length ?x,
             p_grid = fst (np_meshgrid ?levels ?x), x_grid = snd (np_meshgrid ?levels ?x),
             grid_data_shape = (length ?x, length ?levels)\<rparr>"
  have run: "cross_section_grids dists 1000 100 10 = Inr ?g"
    using assms np_arange_default
    by (simp add: cross_section_grids_def Let_def split_beta del: upt_Suc)
  have len: "length ?levels = 91" by simp
  have ends: "hd ?levels = 1000" "last ?levels = 100"
    by (simp_all add: hd_map last_map upt_conv_Cons del: upt_Suc)
  have shapes: "has_shape (fst (np_meshgrid ?levels ?x)) 100 91"
    "has_shape (snd (np_meshgrid ?levels ?x)) 100 91"
    using has_shape_meshgrid [of ?levels ?x] by (simp_all add: np_linspace_100(1))
  show ?thesis
    using run len ends shapes np_linspace_100 [of "hd dists" "last dists"]
    by (intro exI [of _ ?g]) (simp del: upt_Suc)
qed

theorem cross_section_default_shape_witness:
  "[0, 350.5, 812 :: real] \<noteq> []
     \<and> (\<exists>g. cross_section_grids [0, 350.5, 812] 1000 100 10 = Inr g
           \<and> length (vertical_levels g) = 91 \<and> hd (x_points g) = 0
           \<and> last (x_points g) = 812 \<and> grid_data_shape g = (100, 91))"
  using cross_section_default_shape [of "[0, 350.5, 812]"] by auto

section \<open>Properties of the wind-report loops\<close>

lemma np_nan_unbound: "np_nan = Inl NameError"
  by (simp add: np_nan_def imported_names_def)

lemma convert_loop_length: "length (snd (convert_loop pf is col)) = length col"
  by (induction "is" arbitrary: col)
     (auto simp: Let_def np_nan_unbound split: sum.splits)

lemma convert_loop_unk:
  "col ! j = Str ''UNK'' \<Longrightarrow> snd (convert_loop pf is col) ! j = Str ''UNK''"
proof (induction "is" arbitrary: col)
  case Nil
  then show ?case by simp
next
  case (Cons i "is")
  show ?case
  proof (cases "col ! i = Str ''UNK''")
    case True
    with Cons show ?thesis by simp
  next
    case False
    with Cons.prems have ij: "i \<noteq> j" by auto
    show ?thesis
    proof (cases "py_float pf (col ! i)")
      case (Inl e)
      with False Cons.prems show ?thesis by (simp add: np_nan_unbound)
    next
      case (Inr f)
      from ij Cons.prems have "col[i := Flt f] ! j = Str ''UNK''" by simp
      from Cons.IH [OF this] False Inr show ?thesis by simp
    qed
  qed
qed

lemma convert_loop_done:
  "convert_loop pf is col = (None, col') \<Longrightarrow> set is \<subseteq> {..< length col} \<Longrightarrow> j < length col \<Longrightarrow>
     (if j \<in> set is \<and> col ! j \<noteq> Str ''UNK''
      then \<exists>f. py_float pf (col ! j) = Inr f \<and> col' ! j = Flt f
      else col' ! j = col ! j)"
proof (induction "is" arbitrary: col)
  case Nil
  then show ?case by simp
next
  case (Cons i "is")
  from Cons.prems have i: "i < length col" and sub: "set is \<subseteq> {..< length col}"
    by auto
  show ?case
  proof (cases "col ! i = Str ''UNK''")
    case True
    with Cons.prems have run: "convert_loop pf is col = (None, col')" by simp
    from Cons.IH [OF run sub Cons.prems(3)] True show ?thesis
      by (cases "j = i") (auto split: if_splits)
  next
    case False
    show ?thesis
    proof (cases "py_float pf (col ! i)")
      case (Inl e)
      with False Cons.prems(1) show ?thesis by (simp add: np_nan_unbound split: if_splits)
    next
      case (Inr f)
      let ?c = "col[i := Flt f]"
      from False Inr Cons.prems(1) have run: "convert_loop pf is ?c = (None, col')"
        by simp
      have sub': "set is \<subseteq> {..< length ?c}" and j': "j < length ?c"
        using sub Cons.prems(3) by simp_all
      note ih = Cons.IH [OF run sub' j']
      show ?thesis
      proof (cases "j = i")
        case True
        with ih i False Inr show ?thesis by (auto split: if_splits)
      next
        case False
        with ih show ?thesis by (auto split: if_splits)
      qed
    qed
  qed
qed

lemma convert_speeds_done:
  assumes "convert_speeds pf col = (None, col')" "j < length col"
  shows "if col ! j \<noteq> Str ''UNK''
      then \<exists>f. py_float pf (col ! j) = Inr f \<and> col' ! j = Flt f
      else col' ! j = col ! j"
proof -
  have "set [0 ..< length col] \<subseteq> {..< length col}" by auto
  from convert_loop_done [of pf "[0 ..< length col]" col col' j, OF _ this] assms
  show ?thesis by (simp add: convert_speeds_def)
qed

lemma plot_loop_ok:
  "\<forall>(i, c) \<in> set rows. c = Str ''UNK'' \<or> (\<exists>f. c = Flt f) \<Longrightarrow>
   plot_loop rows calls =
     Inr (calls @ map (\<lambda>(i, c). (i, if c \<noteq> Str ''UNK'' \<and> exceeds_65 c then HighWind else WindReport)) rows)"
proof (induction rows arbitrary: calls)
  case Nil
  then show ?case by simp
next
  case (Cons r rows)
  obtain i c where r: "r = (i, c)" by (cases r)
  from Cons.prems r have c: "c = Str ''UNK'' \<or> (\<exists>f. c = Flt f)" by auto
  from Cons.prems have rest: "\<forall>(i, c) \<in> set rows. c = Str ''UNK'' \<or> (\<exists>f. c = Flt f)"
    by auto
  from c show ?case
    using Cons.IH [OF rest] r by auto
qed


lemma convert_speeds_length: "length (snd (convert_speeds pf col)) = length col"
  by (simp add: convert_speeds_def convert_loop_length)

lemma convert_speeds_again:
  assumes "convert_speeds pf col = (None, col')"
  shows "convert_speeds pf col' = (None, col')"
proof -
  have len: "length col' = length col"
    using convert_speeds_length [of pf col] assms by simp
  have cells: "c = Str ''UNK'' \<or> (\<exists>f. c = Flt f)" if "c \<in> set col'" for c
  proof -
    from that obtain j where j: "j < length col'" "c = col' ! j"
      by (auto simp: in_set_conv_nth)
    with convert_speeds_done [OF assms, of j] len show ?thesis
      by (auto split: if_splits)
  qed
  have "convert_loop pf is c = (None, c)"
    if "\<forall>x \<in> set c. x = Str ''UNK'' \<or> (\<exists>f. x = Flt f)" "set is \<subseteq> {..< length c}"
    for "is" c
    using that
  proof (induction "is")
    case Nil
    then show ?case by simp
  next
    case (Cons i "is")
    then have "c ! i = Str ''UNK'' \<or> (\<exists>f. c ! i = Flt f)" by simp
    then show ?case
    proof
      assume "c ! i = Str ''UNK''"
      with Cons show ?thesis by simp
    next
      assume "\<exists>f. c ! i = Flt f"
      then obtain f where f: "c ! i = Flt f" ..
      then have "c[i := Flt f] = c" by (metis list_update_id)
      with f Cons show ?thesis by simp
    qed
  qed
  moreover have "set [0 ..< length col'] \<subseteq> {..< length col'}" by auto
  ultimately show ?thesis
    using cells unfolding convert_speeds_def by blast
qed

lemma plot_wind_converted:
  assumes "convert_speeds pf col = (None, col')"
  shows "plot_wind col' =
     Inr (map (\<lambda>i. (i, if col' ! i \<noteq> Str ''UNK'' \<and> exceeds_65 (col' ! i) then HighWind else WindReport))
            [0 ..< length col'])"
proof -
  have len: "length col' = length col"
    using convert_speeds_length [of pf col] assms by simp
  have "\<forall>(i, c) \<in> set (zip [0 ..< length col'] col'). c = Str ''UNK'' \<or> (\<exists>f. c = Flt f)"
  proof clarify
    fix i c assume "(i, c) \<in> set (zip [0 ..< length col'] col')" "\<nexists>f. c = Flt f"
    then obtain j where j: "j < length col'" "c = col' ! j"
      by (auto simp: in_set_conv_nth)
    with convert_speeds_done [OF assms, of j] len \<open>\<nexists>f. c = Flt f\<close> show "c = Str ''UNK''"
      by (auto split: if_splits)
  qed
  from plot_loop_ok [OF this, of "[]"]
  have "plot_wind col' = Inr (map (\<lambda>(i, c). (i, if c \<noteq> Str ''UNK'' \<and> exceeds_65 c then HighWind else WindReport))
      (zip [0 ..< length col'] col'))"
    by (simp add: plot_wind_def)
  also have "zip [0 ..< length col'] col' = map (\<lambda>i. (i, col' ! i)) [0 ..< length col']"
    by (rule nth_equalityI) simp_all
  finally show ?thesis by (simp add: comp_def)
qed

lemma convert_loop_completes:
  "\<forall>c \<in> set col. c \<noteq> Str ''UNK'' \<longrightarrow> (\<exists>f. py_float pf c = Inr f) \<Longrightarrow>
   set is \<subseteq> {..< length col} \<Longrightarrow> fst (convert_loop pf is col) = None"
proof (induction "is" arbitrary: col)
  case Nil
  then show ?case by simp
next
  case (Cons i "is")
  from Cons.prems(2) have i: "i < length col" and sub: "set is \<subseteq> {..< length col}"
    by auto
  show ?case
  proof (cases "col ! i = Str ''UNK''")
    case True
    with Cons.IH [OF Cons.prems(1) sub] show ?thesis by simp
  next
    case False
    with Cons.prems(1) i obtain f where f: "py_float pf (col ! i) = Inr f"
      by (meson nth_mem)
    have ok: "\<forall>c \<in> set (col[i := Flt f]). c \<noteq> Str ''UNK'' \<longrightarrow> (\<exists>f. py_float pf c = Inr f)"
    proof
      fix c assume "c \<in> set (col[i := Flt f])"
      then have "c = Flt f \<or> c \<in> set col"
        by (meson insertE set_update_subset_insert subsetD)
      with Cons.prems(1) show "c \<noteq> Str ''UNK'' \<longrightarrow> (\<exists>f. py_float pf c = Inr f)" by auto
    qed
    have "set is \<subseteq> {..< length (col[i := Flt f])}" using sub by simp
    from Cons.IH [OF ok this] False f show ?thesis by simp
  qed
qed

lemma convert_speeds_completes:
  assumes "\<forall>c \<in> set col. c \<noteq> Str ''UNK'' \<longrightarrow> (\<exists>f. py_float pf c = Inr f)"
  shows "fst (convert_speeds pf col) = None"
proof -
  have "set [0 ..< length col] \<subseteq> {..< length col}" by auto
  from convert_loop_completes [OF assms this] show ?thesis
    by (simp add: convert_speeds_def)
qed

text \<open>
  The runs that reach the plotting loop.  An entry \<open>'UNK'\<close> of the \<open>Speed\<close> column is
  left unchanged by the conversion loop, whether or not the loop runs to its end.
  The loop completes when every other entry is a float or parses as one; then every
  such entry holds its float, and the plotting loop makes exactly one \<open>scatter\<close> call
  per wind report, in row order: the high-wind call if and only if the speed is not
  \<open>'UNK'\<close> and exceeds 65, the regular call otherwise.
\<close>

theorem wind_reports_plotted_once:
  "(\<forall>i < length col. col ! i = Str ''UNK'' \<longrightarrow> snd (convert_speeds pf col) ! i = Str ''UNK'')
   \<and> (\<forall>col'. convert_speeds pf col = (None, col') \<longrightarrow>
         length col' = length col
       \<and> (\<forall>i < length col. col' ! i = Str ''UNK'' \<longleftrightarrow> col ! i = Str ''UNK'')
       \<and> (\<forall>i < length col. col ! i \<noteq> Str ''UNK'' \<longrightarrow>
             (\<exists>f. py_float pf (col ! i) = Inr f \<and> col' ! i = Flt f))
       \<and> wind_reports pf col =
           Inr (map (\<lambda>i. (i, if col' ! i \<noteq> Str ''UNK'' \<and> exceeds_65 (col' ! i)
                              then HighWind else WindReport))
                  [0 ..< length col]))"
proof (intro conjI allI impI)
  fix i assume "i < length col" "col ! i = Str ''UNK''"
  then show "snd (convert_speeds pf col) ! i = Str ''UNK''"
    by (simp add: convert_speeds_def convert_loop_unk)
next
  fix col' assume run: "convert_speeds pf col = (None, col')"
  show len: "length col' = length col"
    using convert_speeds_length [of pf col] run by simp
  show "wind_reports pf col =
           Inr (map (\<lambda>i. (i, if col' ! i \<noteq> Str ''UNK'' \<and> exceeds_65 (col' ! i)
                              then HighWind else WindReport))
                  [0 ..< length col])"
    using run convert_speeds_again [OF run] plot_wind_converted [OF run] len
    by (simp add: wind_reports_def)
  {
    fix i assume i: "i < length col"
    with convert_speeds_done [OF run, of i]
    show "col' ! i = Str ''UNK'' \<longleftrightarrow> col ! i = Str ''UNK''"
      by (auto split: if_splits)
    assume "col ! i \<noteq> Str ''UNK''"
    with convert_speeds_done [OF run i]
    show "\<exists>f. py_float pf (col ! i) = Inr f \<and> col' ! i = Flt f"
      by simp
  }
qed

theorem wind_reports_plotted_once_witness:
  "convert_speeds (\<lambda>s. if s = ''40'' then Some (Finite 40)
                        else if s = ''70'' then Some (Finite 70) else None)
      [Str ''UNK'', Str ''70'', Str ''40'']
     = (None, [Str ''UNK'', Flt (Finite 70), Flt (Finite 40)])
   \<and> wind_reports (\<lambda>s. if s = ''40'' then Some (Finite 40)
                         else if s = ''70'' then Some (Finite 70) else None)
      [Str ''UNK'', Str ''70'', Str ''40'']
     = Inr [(0, WindReport), (1, HighWind), (2, WindReport)]"
proof -
  let ?pf = "\<lambda>s. if s = ''40'' then Some (Finite 40)
                  else if s = ''70'' then Some (Finite 70) else None"
  let ?col = "[Str ''UNK'', Str ''70'', Str ''40'']"
  have run: "convert_speeds ?pf ?col = (None, [Str ''UNK'', Flt (Finite 70), Flt (Finite 40)])"
    by (simp add: convert_speeds_def upt_conv_Cons)
  from wind_reports_plotted_once [of ?col ?pf] run
  show ?thesis by (simp add: upt_conv_Cons)
qed

text \<open>
  C5.  A \<open>Speed\<close> entry that is neither \<open>'UNK'\<close> nor a float literal makes \<open>float\<close>
  raise \<open>ValueError\<close>; the handler then evaluates \<open>np.nan\<close>, but the script never
  imports \<open>numpy\<close>, so \<open>NameError\<close> leaves the loop and the entry keeps its string.
  Here the third report carries the token \<open>abc\<close>.
\<close>

theorem convert_speeds_parse_failure:
  "convert_speeds (\<lambda>s. if s = ''61'' then Some (Finite 61) else None)
      [Str ''UNK'', Str ''61'', Str ''abc'']
     = (Some NameError, [Str ''UNK'', Flt (Finite 61), Str ''abc''])"
  by (simp add: convert_speeds_def np_nan_def imported_names_def upt_conv_Cons)

text \<open>
  C10.  With one entry that does not parse, the \<open>NameError\<close> of the conversion loop
  ends the script before the plotting loop: no wind report is plotted, the one with
  speed \<open>'UNK'\<close> and the one above 65 included.  Without that entry the same reports
  are plotted once each, the \<open>'UNK'\<close> report as a regular wind report.
\<close>

theorem wind_reports_unparsed_entry:
  "wind_reports (\<lambda>s. if s = ''70'' then Some (Finite 70) else None)
      [Str ''UNK'', Str ''70'', Str ''abc''] = Inl NameError
   \<and> wind_reports (\<lambda>s. if s = ''70'' then Some (Finite 70) else None)
      [Str ''UNK'', Str ''70''] = Inr [(0, WindReport), (1, HighWind)]"
  by (simp add: wind_reports_def convert_speeds_def np_nan_def imported_names_def
      plot_wind_def upt_conv_Cons)

section \<open>Properties of the altitude filter\<close>

lemma df_drop_distinct:
  assumes "distinct (map fst (pre @ (index, row) # rest))"
  shows "df_drop index (pre @ (index, row) # rest) = Inr (pre @ rest)"
proof -
  have "filter (\<lambda>(label, row). label \<noteq> index) pre = pre"
    using assms by (intro filter_True) force
  moreover have "filter (\<lambda>(label, row). label \<noteq> index) rest = rest"
    using assms by (intro filter_True) force
  ultimately show ?thesis by (simp add: df_drop_def)
qed

lemma drop_loop_keeps:
  "distinct (map fst (pre @ it)) \<Longrightarrow>
   drop_loop it (pre @ it) = Inr (pre @ filter (\<lambda>(index, row). alt row = 100000) it)"
proof (induction it arbitrary: pre)
  case Nil
  then show ?case by simp
next
  case (Cons ir rest)
  obtain index row where ir: "ir = (index, row)" by (cases ir)
  show ?case
  proof (cases "alt row = 100000")
    case True
    from Cons.prems have "distinct (map fst ((pre @ [ir]) @ rest))" by simp
    from Cons.IH [OF this] True ir show ?thesis by simp
  next
    case False
    from Cons.prems have d: "distinct (map fst (pre @ rest))" by simp
    from df_drop_distinct [of pre index row rest] Cons.prems ir
    have "df_drop index (pre @ ir # rest) = Inr (pre @ rest)" by simp
    with Cons.IH [OF d] False ir show ?thesis by simp
  qed
qed

lemma map_snd_filter_zip:
  "length ls = length rows \<Longrightarrow>
   map snd (filter (\<lambda>(l, r). P r) (zip ls rows)) = filter P rows"
  by (induction ls rows rule: list_induct2) auto

lemma filter_altitude_eq:
  "filter_altitude point_data =
     Inr (data_frame (filter (\<lambda>row. alt row = 100000) point_data))"
proof -
  let ?df = "data_frame point_data"
  have "distinct (map fst ([] @ ?df))" by (simp add: data_frame_def)
  from drop_loop_keeps [OF this]
  have "drop_loop ?df ?df = Inr (filter (\<lambda>(index, row). alt row = 100000) ?df)" by simp
  moreover have "map snd (filter (\<lambda>(index, row). alt row = 100000) ?df)
      = filter (\<lambda>row. alt row = 100000) point_data"
    unfolding data_frame_def by (rule map_snd_filter_zip) simp
  ultimately show ?thesis
    by (simp add: filter_altitude_def reset_index_def data_frame_def flip: length_map [of snd])
qed

lemma add_future_time_data_frame:
  "add_future_time now (data_frame rows) =
     map (\<lambda>i. (i, point_row.extend (rows ! i)
                  \<lparr>Hours = i, future_time = strftime_IMp (now - 4 * 3600 + 3600 * int i)\<rparr>))
       [0 ..< length rows]"
  by (rule nth_equalityI) (simp_all add: add_future_time_def data_frame_def Let_def)

text \<open>
  C4.  After the row-filtering loop and the index reset the table holds exactly the
  rows of the fetched point data whose \<open>alt\<close> equals 100000, in their original
  relative order and labelled \<open>0, 1, 2, ...\<close>; the loop never raises.  Afterwards
  row \<open>i\<close> of that table receives the columns \<open>Hours = i\<close> and \<open>future_time\<close>, the
  clock time \<open>i\<close> hours after the current time, itself four hours before \<open>now\<close>.
\<close>

theorem filter_altitude_keeps:
  "filter_altitude point_data =
     Inr (zip [0 ..< length (filter (\<lambda>row. alt row = 100000) point_data)]
            (filter (\<lambda>row. alt row = 100000) point_data))
   \<and> meteogram_table now point_data =
     Inr (map (\<lambda>i. (i, point_row.extend (filter (\<lambda>row. alt row = 100000) point_data ! i)
                  \<lparr>Hours = i, future_time = strftime_IMp (now - 4 * 3600 + 3600 * int i)\<rparr>))
            [0 ..< length (filter (\<lambda>row. alt row = 100000) point_data)])"
  using filter_altitude_eq [of point_data]
    add_future_time_data_frame [of now "filter (\<lambda>row. alt row = 100000) point_data"]
  by (simp add: meteogram_table_def data_frame_def)

theorem filter_altitude_keeps_witness:
  "filter_altitude
     [\<lparr>alt = 100000, Temperature_isobaric = 295, Dewpoint_temperature_isobaric = 288\<rparr>,
      \<lparr>alt = 97500, Temperature_isobaric = 294, Dewpoint_temperature_isobaric = 287\<rparr>,
      \<lparr>alt = 100000, Temperature_isobaric = 296, Dewpoint_temperature_isobaric = 289\<rparr>,
      \<lparr>alt = 100000, Temperature_isobaric = 297, Dewpoint_temperature_isobaric = 290\<rparr>]
   = Inr [(0, \<lparr>alt = 100000, Temperature_isobaric = 295, Dewpoint_temperature_isobaric = 288\<rparr>),
          (1, \<lparr>alt = 100000, Temperature_isobaric = 296, Dewpoint_temperature_isobaric = 289\<rparr>),
          (2, \<lparr>alt = 100000, Temperature_isobaric = 297, Dewpoint_temperature_isobaric = 290\<rparr>)]
   \<and> meteogram_table 1688398220
     [\<lparr>alt = 100000, Temperature_isobaric = 295, Dewpoint_temperature_isobaric = 288\<rparr>,
      \<lparr>alt = 97500, Temperature_isobaric = 294, Dewpoint_temperature_isobaric = 287\<rparr>,
      \<lparr>alt = 100000, Temperature_isobaric = 296, Dewpoint_temperature_isobaric = 289\<rparr>,
      \<lparr>alt = 100000, Temperature_isobaric = 297, Dewpoint_temperature_isobaric = 290\<rparr>]
   = Inr [(0, \<lparr>alt = 100000, Temperature_isobaric = 295, Dewpoint_temperature_isobaric = 288,
                 Hours = 0, future_time = ''11:30 AM''\<rparr>),
          (1, \<lparr>alt = 100000, Temperature_isobaric = 296, Dewpoint_temperature_isobaric = 289,
                 Hours = 1, future_time = ''12:30 PM''\<rparr>),
          (2, \<lparr>alt = 100000, Temperature_isobaric = 297, Dewpoint_temperature_isobaric = 290,
                 Hours = 2, future_time = ''01:30 PM''\<rparr>)]"
proof -
  let ?rows = "[\<lparr>alt = 100000, Temperature_isobaric = 295, Dewpoint_temperature_isobaric = 288\<rparr>,
      \<lparr>alt = 97500, Temperature_isobaric = 294, Dewpoint_temperature_isobaric = 287\<rparr>,
      \<lparr>alt = 100000, Temperature_isobaric = 296, Dewpoint_temperature_isobaric = 289\<rparr>,
      \<lparr>alt = 100000, Temperature_isobaric = 297, Dewpoint_temperature_isobaric = 290\<rparr>]"
  have t: "strftime_IMp (1688398220 - 4 * 3600 + 3600 * int 0) = ''11:30 AM''"
    "strftime_IMp (1688398220 - 4 * 3600 + 3600 * int 1) = ''12:30 PM''"
    "strftime_IMp (1688398220 - 4 * 3600 + 3600 * int 2) = ''01:30 PM''"
    by (simp_all add: strftime_IMp_def two_digits_def Let_def)
  from filter_altitude_keeps [of ?rows 1688398220] t
  show ?thesis by (simp add: upt_conv_Cons point_row.defs)
qed

section \<open>Properties of vertical interpolation\<close>

lemma vertical_interpolate_run:
  assumes "vcoord_data \<noteq> []" "length interp_var = length vcoord_data"
  shows "vertical_interpolate vcoord_data interp_var interp_levels =
     Inr (map (\<lambda>l. if l < last vcoord_data then last interp_var
                    else if l > hd vcoord_data then hd interp_var
                    else interp_at (rev (map ln vcoord_data)) (rev interp_var) (ln l))
            interp_levels)"
proof -
  from assms have ne: "interp_var \<noteq> []" by auto
  show ?thesis
    using assms ne
    by (auto simp: vertical_interpolate_def np_interp_def mask_assign_def Let_def
        rev_map [symmetric] intro!: nth_equalityI)
qed

lemma interp_index_bracket:
  "sorted_wrt (<) xp \<Longrightarrow> j < length xp \<Longrightarrow> xp ! j \<le> x \<Longrightarrow>
   (Suc j < length xp \<Longrightarrow> x < xp ! Suc j) \<Longrightarrow> interp_index xp x = j"
proof (induction xp x arbitrary: j rule: interp_index.induct)
  case (1 a b xp x)
  show ?case
  proof (cases j)
    case 0
    with "1.prems" show ?thesis by auto
  next
    case (Suc j')
    have "b \<le> (b # xp) ! j'"
      using "1.prems"(1,2) Suc by (cases j') (auto simp: less_imp_le)
    with "1.prems" Suc have bx: "b \<le> x" by simp
    from "1.prems" Suc have "interp_index (b # xp) x = j'"
      by (intro "1.IH" bx) auto
    with bx Suc show ?thesis by simp
  qed
qed simp_all


lemma interp_at_segment:
  assumes inc: "sorted_wrt (<) xp" and len: "length fp = length xp"
    and j: "Suc j < length xp" and lo: "xp ! j \<le> x" and hi: "x \<le> xp ! Suc j"
  shows "interp_at xp fp x =
     fp ! j + (fp ! Suc j - fp ! j) * (x - xp ! j) / (xp ! Suc j - xp ! j)"
proof -
  have ne: "xp \<noteq> []" using j by auto
  have lt: "xp ! j < xp ! Suc j"
    using inc j by (simp add: sorted_wrt_nth_less)
  have first: "hd xp \<le> xp ! j"
  proof (cases j)
    case 0
    with ne show ?thesis by (simp add: hd_conv_nth)
  next
    case (Suc j')
    with j sorted_wrt_nth_less [OF inc, of 0 j] have "xp ! 0 < xp ! j" by simp
    with ne show ?thesis by (simp add: hd_conv_nth)
  qed
  have final: "xp ! Suc j \<le> last xp"
  proof (cases "Suc j = length xp - 1")
    case True
    with ne show ?thesis by (simp add: last_conv_nth)
  next
    case False
    with j sorted_wrt_nth_less [OF inc, of "Suc j" "length xp - 1"]
    have "xp ! Suc j < xp ! (length xp - 1)" by simp
    with ne show ?thesis by (simp add: last_conv_nth)
  qed
  from lo hi first final have range: "\<not> x > last xp" "\<not> x < hd xp" by auto
  show ?thesis
  proof (cases "x = xp ! Suc j")
    case True
    have "interp_index xp x = Suc j"
    proof (rule interp_index_bracket [OF inc j])
      show "xp ! Suc j \<le> x" using True by simp
      assume "Suc (Suc j) < length xp"
      with sorted_wrt_nth_less [OF inc, of "Suc j" "Suc (Suc j)"]
      have "xp ! Suc j < xp ! Suc (Suc j)" by simp
      with True show "x < xp ! Suc (Suc j)" by simp
    qed
    with range True lt show ?thesis
      by (simp add: interp_at_def Let_def)
  next
    case False
    with hi have "x < xp ! Suc j" by simp
    with interp_index_bracket [OF inc _ lo, of ] j have "interp_index xp x = j"
      by simp
    moreover have "j \<noteq> length xp - 1" using j by simp
    ultimately have "interp_at xp fp x =
        (if xp ! j = x then fp ! j
         else (fp ! (j + 1) - fp ! j) / (xp ! (j + 1) - xp ! j) * (x - xp ! j) + fp ! j)"
      using range by (simp add: interp_at_def Let_def)
    then show ?thesis by simp

  qed
qed

lemma interp_at_single: "interp_at [a] [v] a = v"
  by (simp add: interp_at_def)


lemma decreasing_bounds:
  assumes dec: "sorted_wrt (>) (xs :: real list)" and k: "k < length xs"
  shows "xs ! k \<le> hd xs" "last xs \<le> xs ! k"
proof -
  have ne: "xs \<noteq> []" using k by auto
  show "xs ! k \<le> hd xs"
  proof (cases k)
    case 0
    with ne show ?thesis by (simp add: hd_conv_nth)
  next
    case (Suc k')
    with k sorted_wrt_nth_less [OF dec, of 0 k] ne show ?thesis
      by (simp add: hd_conv_nth)
  qed
  show "last xs \<le> xs ! k"
  proof (cases "k = length xs - 1")
    case True
    with ne show ?thesis by (simp add: last_conv_nth)
  next
    case False
    with k have "k < length xs - 1" by simp
    with sorted_wrt_nth_less [OF dec, of k "length xs - 1"] ne show ?thesis
      by (simp add: last_conv_nth)
  qed
qed

lemma increasing_rev_ln:
  assumes "sorted_wrt (>) (xs :: real list)" "\<forall>p \<in> set xs. 0 < p"
  shows "sorted_wrt (<) (rev (map ln xs))"
proof -
  have "sorted_wrt (\<lambda>x y. ln y < ln x) xs"
    using assms(2) by (intro sorted_wrt_mono_rel [OF _ assms(1)]) simp
  then show ?thesis by (simp add: sorted_wrt_rev sorted_wrt_map)
qed

lemma bracket_exists:
  "xs \<noteq> [] \<Longrightarrow> last xs \<le> p \<Longrightarrow> p \<le> hd xs \<Longrightarrow>
   (\<exists>k. Suc k < length xs \<and> xs ! Suc k \<le> p \<and> p \<le> xs ! k) \<or> (p = hd xs \<and> length xs = 1)"
   for p :: real
proof (induction xs rule: induct_list012)
  case 1
  then show ?case by simp
next
  case (2 a)
  then show ?case by simp
next
  case (3 a b xs)
  show ?case
  proof (cases "b \<le> p")
    case True
    with "3.prems" have "Suc 0 < length (a # b # xs) \<and> (a # b # xs) ! Suc 0 \<le> p \<and> p \<le> (a # b # xs) ! 0"
      by simp
    then show ?thesis by blast
  next
    case False
    with "3.prems" "3.IH"(2)
    have "(\<exists>k. Suc k < length (b # xs) \<and> (b # xs) ! Suc k \<le> p \<and> p \<le> (b # xs) ! k)
        \<or> (p = hd (b # xs) \<and> length (b # xs) = 1)"
      by simp
    with False obtain k where "Suc k < length (b # xs)" "(b # xs) ! Suc k \<le> p" "p \<le> (b # xs) ! k"
      by auto
    then have "Suc (Suc k) < length (a # b # xs) \<and> (a # b # xs) ! Suc (Suc k) \<le> p
        \<and> p \<le> (a # b # xs) ! Suc k"
      by simp
    then show ?thesis by blast
  qed
qed

lemma vertical_interpolate_segment:
  assumes dec: "sorted_wrt (>) vcoord_data" and pos: "\<forall>p \<in> set vcoord_data. 0 < p"
    and len: "length interp_var = length vcoord_data"
    and k: "Suc k < length vcoord_data"
    and lo: "vcoord_data ! Suc k \<le> l" and hi: "l \<le> vcoord_data ! k"
  shows "interp_at (rev (map ln vcoord_data)) (rev interp_var) (ln l) =
     interp_var ! k + (interp_var ! Suc k - interp_var ! k) * (ln l - ln (vcoord_data ! k))
        / (ln (vcoord_data ! Suc k) - ln (vcoord_data ! k))"
proof -
  let ?n = "length vcoord_data"
  let ?xp = "rev (map ln vcoord_data)" and ?fp = "rev interp_var"
  define j where "j = ?n - 2 - k"
  have j: "Suc j < length ?xp" using k by (simp add: j_def)
  have idx: "?n - Suc j = Suc k" "?n - Suc (Suc j) = k"
    using k by (simp_all add: j_def)
  have xpj: "?xp ! j = ln (vcoord_data ! Suc k)" "?xp ! Suc j = ln (vcoord_data ! k)"
    using k j idx by (simp_all add: rev_nth)
  have fpj: "?fp ! j = interp_var ! Suc k" "?fp ! Suc j = interp_var ! k"
    using k j idx len by (simp_all add: rev_nth)
  have pk: "0 < vcoord_data ! Suc k" "0 < vcoord_data ! k"
    using pos k by simp_all
  with lo have pl: "0 < l" by simp
  have lt: "vcoord_data ! Suc k < vcoord_data ! k"
    using sorted_wrt_nth_less [OF dec, of k "Suc k"] k by simp
  have ln_lt: "ln (vcoord_data ! Suc k) < ln (vcoord_data ! k)"
    using lt pk by simp
  have "interp_at ?xp ?fp (ln l) =
      ?fp ! j + (?fp ! Suc j - ?fp ! j) * (ln l - ?xp ! j) / (?xp ! Suc j - ?xp ! j)"
  proof (rule interp_at_segment [OF increasing_rev_ln [OF dec pos] _ j])
    show "length ?fp = length ?xp" using len by simp
    show "?xp ! j \<le> ln l" using lo pk pl by (simp add: xpj)
    show "ln l \<le> ?xp ! Suc j" using hi pk pl by (simp add: xpj)
  qed
  also have "\<dots> = interp_var ! k + (interp_var ! Suc k - interp_var ! k) * (ln l - ln (vcoord_data ! k))
        / (ln (vcoord_data ! Suc k) - ln (vcoord_data ! k))"
    unfolding xpj fpj using ln_lt by (simp add: field_simps)
  finally show ?thesis .
qed


text \<open>
  C1.  For a strictly decreasing array of positive pressures and a variable array of
  the same length the call returns one value per target level, and at every target
  level \<open>l\<close> between two neighbouring observed pressures \<open>p\<^sub>k \<ge> l \<ge> p\<^sub>k\<^sub>+\<^sub>1\<close> that value
  is the linear interpolation of the variable in \<open>ln p\<close>:
  \<open>v\<^sub>k + (v\<^sub>k\<^sub>+\<^sub>1 - v\<^sub>k) * (ln l - ln p\<^sub>k) / (ln p\<^sub>k\<^sub>+\<^sub>1 - ln p\<^sub>k)\<close>.  A target level equal to an
  observed pressure gets the observed value, and every target level within the
  observed range lies between two neighbours (or, for a single observation, on it).
\<close>

theorem vertical_interpolate_log_linear:
  assumes "sorted_wrt (>) vcoord_data" and "\<forall>p \<in> set vcoord_data. 0 < p"
    and "length interp_var = length vcoord_data" and "vcoord_data \<noteq> []"
  shows "\<exists>out. vertical_interpolate vcoord_data interp_var interp_levels = Inr out
     \<and> length out = length interp_levels
     \<and> (\<forall>i < length interp_levels. \<forall>k.
           Suc k < length vcoord_data \<and> vcoord_data ! Suc k \<le> interp_levels ! i
             \<and> interp_levels ! i \<le> vcoord_data ! k \<longrightarrow>
           out ! i = interp_var ! k + (interp_var ! Suc k - interp_var ! k)
                       * (ln (interp_levels ! i) - ln (vcoord_data ! k))
                       / (ln (vcoord_data ! Suc k) - ln (vcoord_data ! k)))
     \<and> (\<forall>i < length interp_levels. \<forall>k < length vcoord_data.
           interp_levels ! i = vcoord_data ! k \<longrightarrow> out ! i = interp_var ! k)
     \<and> (\<forall>i < length interp_levels.
           last vcoord_data \<le> interp_levels ! i \<and> interp_levels ! i \<le> hd vcoord_data \<longrightarrow>
           (\<exists>k. Suc k < length vcoord_data \<and> vcoord_data ! Suc k \<le> interp_levels ! i
                \<and> interp_levels ! i \<le> vcoord_data ! k)
           \<or> (length vcoord_data = 1 \<and> interp_levels ! i = hd vcoord_data))"
proof -
  let ?out = "map (\<lambda>l. if l < last vcoord_data then last interp_var
                    else if l > hd vcoord_data then hd interp_var
                    else interp_at (rev (map ln vcoord_data)) (rev interp_var) (ln l))
            interp_levels"
  note dec = assms(1) and pos = assms(2) and len = assms(3) and ne = assms(4)
  have run: "vertical_interpolate vcoord_data interp_var interp_levels = Inr ?out"
    by (rule vertical_interpolate_run [OF ne len])
  have seg: "?out ! i = interp_var ! k + (interp_var ! Suc k - interp_var ! k)
                       * (ln (interp_levels ! i) - ln (vcoord_data ! k))
                       / (ln (vcoord_data ! Suc k) - ln (vcoord_data ! k))"
    if i: "i < length interp_levels" and k: "Suc k < length vcoord_data"
      and lo: "vcoord_data ! Suc k \<le> interp_levels ! i"
      and hi: "interp_levels ! i \<le> vcoord_data ! k" for i k
  proof -
    from decreasing_bounds(2) [OF dec k] lo have "\<not> interp_levels ! i < last vcoord_data"
      by simp
    moreover from decreasing_bounds(1) [OF dec, of k] k hi
    have "\<not> interp_levels ! i > hd vcoord_data" by simp
    ultimately show ?thesis
      using i vertical_interpolate_segment [OF dec pos len k lo hi] by simp
  qed
  have node: "?out ! i = interp_var ! k"
    if i: "i < length interp_levels" and k: "k < length vcoord_data"
      and eq: "interp_levels ! i = vcoord_data ! k" for i k
  proof (cases "Suc k < length vcoord_data")
    case True
    have "vcoord_data ! Suc k \<le> vcoord_data ! k"
      using sorted_wrt_nth_less [OF dec, of k "Suc k"] True by simp
    from seg [OF i True] this eq show ?thesis by simp
  next
    case last: False
    show ?thesis
    proof (cases k)
      case 0
      with last k have one: "length vcoord_data = 1" by (cases vcoord_data) auto
      then obtain a where a: "vcoord_data = [a]" by (cases vcoord_data) auto
      with len obtain v where v: "interp_var = [v]" by (cases interp_var) auto
      from a v eq 0 i show ?thesis by (simp add: interp_at_def)
    next
      case (Suc k')
      with k have k': "Suc k' < length vcoord_data" by simp
      have lt: "vcoord_data ! Suc k' < vcoord_data ! k'"
        using sorted_wrt_nth_less [OF dec, of k' "Suc k'"] k' by simp
      moreover have "0 < vcoord_data ! Suc k'" "0 < vcoord_data ! k'"
        using pos k' by simp_all
      ultimately have "ln (vcoord_data ! Suc k') \<noteq> ln (vcoord_data ! k')" by simp
      with seg [OF i k'] eq Suc lt show ?thesis by simp
    qed
  qed
  have cover: "(\<exists>k. Suc k < length vcoord_data \<and> vcoord_data ! Suc k \<le> l \<and> l \<le> vcoord_data ! k)
           \<or> (length vcoord_data = 1 \<and> l = hd vcoord_data)"
    if "last vcoord_data \<le> l" "l \<le> hd vcoord_data" for l
    using bracket_exists [OF ne that] by blast
  from run seg node cover show ?thesis
    by (intro exI [of _ ?out] conjI) (simp, simp, blast, blast, blast)
qed

theorem vertical_interpolate_log_linear_witness:
  "sorted_wrt (>) [1000, 500 :: real] \<and> list_all (\<lambda>p. 0 < p) [1000, 500 :: real]
   \<and> length [10, 20 :: real] = length [1000, 500 :: real]
   \<and> (\<exists>out. vertical_interpolate [1000, 500] [10, 20] [700, 500] = Inr out
         \<and> out ! 0 = 10 + (20 - 10) * (ln 700 - ln 1000) / (ln 500 - ln 1000)
         \<and> out ! 1 = 20)"
proof -
  have h: "sorted_wrt (>) [1000, 500 :: real]" "\<forall>p \<in> set [1000, 500 :: real]. 0 < p"
    "length [10, 20 :: real] = length [1000, 500 :: real]" "[1000, 500 :: real] \<noteq> []"
    by simp_all
  from vertical_interpolate_log_linear [OF h, of "[700, 500]"]
  obtain out where run: "vertical_interpolate [1000, 500] [10, 20] [700, 500] = Inr out"
    and seg: "\<forall>i < length [700, 500 :: real]. \<forall>k.
           Suc k < length [1000, 500 :: real] \<and> [1000, 500 :: real] ! Suc k \<le> [700, 500] ! i
             \<and> [700, 500 :: real] ! i \<le> [1000, 500] ! k \<longrightarrow>
           out ! i = [10, 20] ! k + ([10, 20] ! Suc k - [10, 20] ! k)
                       * (ln ([700, 500] ! i) - ln ([1000, 500] ! k))
                       / (ln ([1000, 500] ! Suc k) - ln ([1000, 500] ! k))"
    and node: "\<forall>i < length [700, 500 :: real]. \<forall>k < length [1000, 500 :: real].
           [700, 500 :: real] ! i = [1000, 500] ! k \<longrightarrow> out ! i = [10, 20] ! k"
    by blast
  from seg [rule_format, of 0 0] have "out ! 0 = 10 + (20 - 10) * (ln 700 - ln 1000) / (ln 500 - ln 1000)"
    by simp
  moreover from node [rule_format, of 1 1] have "out ! 1 = 20" by simp
  moreover have "list_all (\<lambda>p. 0 < p) [1000, 500 :: real]" by simp
  ultimately show ?thesis using h(1,3) run by blast
qed

text \<open>
  C2.  Whenever the call returns (the observed arrays are non-empty and equally
  long), a target level below the last observed pressure receives exactly the last
  observed variable value, and a target level above the first observed pressure
  receives exactly the first observed variable value unless it is also below the last
  observed pressure; the second mask is applied last and wins.  When the first
  observed pressure is not below the last, as in every decreasing profile, each level
  above the first observed pressure receives the first observed value.
\<close>

theorem vertical_interpolate_clamps:
  assumes "vcoord_data \<noteq> []" and "length interp_var = length vcoord_data"
  shows "\<exists>out. vertical_interpolate vcoord_data interp_var interp_levels = Inr out
     \<and> length out = length interp_levels
     \<and> (\<forall>i < length interp_levels.
           (interp_levels ! i < last vcoord_data \<longrightarrow> out ! i = last interp_var)
         \<and> (hd vcoord_data < interp_levels ! i \<and> last vcoord_data \<le> interp_levels ! i
              \<longrightarrow> out ! i = hd interp_var))
     \<and> (last vcoord_data \<le> hd vcoord_data \<longrightarrow>
          (\<forall>i < length interp_levels.
             hd vcoord_data < interp_levels ! i \<longrightarrow> out ! i = hd interp_var))"
  unfolding vertical_interpolate_run [OF assms] by auto

theorem vertical_interpolate_clamps_witness:
  "[1000, 500 :: real] \<noteq> [] \<and> length [10, 20 :: real] = length [1000, 500 :: real]
   \<and> last [1000, 500 :: real] \<le> hd [1000, 500]
   \<and> (\<exists>out. vertical_interpolate [1000, 500] [10, 20] [1010, 400] = Inr out
         \<and> out ! 0 = 10 \<and> out ! 1 = 20)"
proof -
  have h: "[1000, 500 :: real] \<noteq> []" "length [10, 20 :: real] = length [1000, 500 :: real]"
    by simp_all
  from vertical_interpolate_clamps [OF h, of "[1010, 400]"]
  obtain out where run: "vertical_interpolate [1000, 500] [10, 20] [1010, 400] = Inr out"
    and m: "\<forall>i < length [1010, 400 :: real].
           ([1010, 400] ! i < last [1000, 500 :: real] \<longrightarrow> out ! i = last [10, 20])
         \<and> (hd [1000, 500 :: real] < [1010, 400] ! i \<and> last [1000, 500 :: real] \<le> [1010, 400] ! i
              \<longrightarrow> out ! i = hd [10, 20])"
    by blast
  from m [rule_format, of 0] have "out ! 0 = 10" by simp
  moreover from m [rule_format, of 1] have "out ! 1 = 20" by simp
  ultimately show ?thesis using run by simp
qed

theorem vertical_interpolate_clamps_counterexample:
  "vertical_interpolate [1, 3] [10, 20] [2] = Inr [20]
   \<and> hd [1, 3 :: real] < [2] ! 0 \<and> [20 :: real] ! 0 \<noteq> hd [10, 20]"
  by (simp add: vertical_interpolate_def np_interp_def mask_assign_def)

section \<open>Properties of the sounding table\<close>

lemma prefix_append_short:
  "prefix xs (ys @ zs) \<Longrightarrow> length xs \<le> length ys \<Longrightarrow> prefix xs ys"
proof -
  assume p: "prefix xs (ys @ zs)" and len: "length xs \<le> length ys"
  from p obtain us where "ys @ zs = xs @ us" by (auto simp: prefix_def)
  then have "take (length xs) (ys @ zs) = take (length xs) (xs @ us)" by simp
  then have "xs = take (length xs) (ys @ zs)" by simp
  with len have "xs = take (length xs) ys" by simp
  then show ?thesis by (metis take_is_prefix)
qed

lemma find_from_first:
  "sub \<noteq> [] \<Longrightarrow> \<not> sublist sub (pre @ butlast sub) \<Longrightarrow>
   find_from sub (pre @ sub @ rest) i = int (i + length pre)"
proof (induction pre arbitrary: i)
  case Nil
  then obtain c sub' where "sub = c # sub'" by (cases sub) auto
  then show ?case by simp
next
  case (Cons c pre)
  have no: "\<not> prefix sub (c # pre @ sub @ rest)"
  proof
    assume p: "prefix sub (c # pre @ sub @ rest)"
    have split: "c # pre @ sub @ rest = (c # pre @ butlast sub) @ (last sub # rest)"
      using Cons.prems(1) by simp
    have "length sub \<le> length (c # pre @ butlast sub)" by simp
    with p have "prefix sub (c # pre @ butlast sub)"
      unfolding split by (rule prefix_append_short)
    then have "sublist sub ((c # pre) @ butlast sub)" by simp
    with Cons.prems(2) show False by simp
  qed
  from Cons.prems(2) have "\<not> sublist sub (pre @ butlast sub)"
    by (simp add: sublist_Cons_right)
  from Cons.IH [OF Cons.prems(1) this, of "Suc i"] no show ?case by simp
qed

lemma find_from_absent: "\<not> sublist sub s \<Longrightarrow> find_from sub s i = - 1"
proof (induction s arbitrary: i)
  case Nil
  then show ?case by auto
next
  case (Cons c s)
  then show ?case by (auto simp: sublist_Cons_right)
qed

lemma py_slice_middle:
  "py_slice (pre @ body @ post) (int (length pre)) (int (length pre + length body)) = body"
  by (simp add: py_slice_def Let_def)

lemma data_section_between:
  assumes raw: "\<not> sublist ''%RAW%'' (pre @ ''%RAW'')"
    and fin: "\<not> sublist ''%END%'' (pre @ ''%RAW%'' @ body @ ''%END'')"
  shows "py_slice (pre @ ''%RAW%'' @ body @ ''%END%'' @ post)
           (py_find (pre @ ''%RAW%'' @ body @ ''%END%'' @ post) ''%RAW%'' + int (length ''%RAW%''))
           (py_find (pre @ ''%RAW%'' @ body @ ''%END%'' @ post) ''%END%'') = body"
proof -
  let ?data = "pre @ ''%RAW%'' @ body @ ''%END%'' @ post"
  have s: "py_find ?data ''%RAW%'' = int (length pre)"
    using find_from_first [of "''%RAW%''" pre "body @ ''%END%'' @ post" 0] raw
    by (simp add: py_find_def)
  have "find_from ''%END%'' ((pre @ ''%RAW%'' @ body) @ ''%END%'' @ post) 0
      = int (0 + length (pre @ ''%RAW%'' @ body))"
    using fin by (intro find_from_first) simp_all
  then have e: "py_find ?data ''%END%'' = int (length (pre @ ''%RAW%'') + length body)"
    by (simp add: py_find_def)
  have "py_slice ((pre @ ''%RAW%'') @ body @ (''%END%'' @ post))
      (int (length (pre @ ''%RAW%''))) (int (length (pre @ ''%RAW%'') + length body)) = body"
    by (rule py_slice_middle)
  with s e show ?thesis by (simp add: ac_simps)
qed

lemma append_rows_eq:
  "append_rows lines df =
     (if list_all (\<lambda>l. length (split_on CHR '','' l) = 6)
           (filter (\<lambda>l. l \<noteq> []) (map py_strip lines))
      then Inr (df @ map (\<lambda>l. \<lparr>LEVEL = split_on CHR '','' l ! 0, HGHT = split_on CHR '','' l ! 1,
                                TEMP = split_on CHR '','' l ! 2, DWPT = split_on CHR '','' l ! 3,
                                WDIR = split_on CHR '','' l ! 4, WSPD = split_on CHR '','' l ! 5\<rparr>)
                       (filter (\<lambda>l. l \<noteq> []) (map py_strip lines)))
      else Inl ValueError)"
proof (induction lines arbitrary: df)
  case Nil
  then show ?case by simp
next
  case (Cons line lines)
  show ?case
  proof (cases "py_strip line = []")
    case True
    with Cons show ?thesis by simp
  next
    case False
    show ?thesis
    proof (cases "length (split_on CHR '','' (py_strip line)) = 6")
      case True
      with False Cons [of "df @ [\<lparr>LEVEL = split_on CHR '','' (py_strip line) ! 0,
          HGHT = split_on CHR '','' (py_strip line) ! 1, TEMP = split_on CHR '','' (py_strip line) ! 2,
          DWPT = split_on CHR '','' (py_strip line) ! 3, WDIR = split_on CHR '','' (py_strip line) ! 4,
          WSPD = split_on CHR '','' (py_strip line) ! 5\<rparr>]"]
      show ?thesis by (simp add: make_row_def Let_def)
    next
      case bad: False
      with False show ?thesis by (simp add: make_row_def Let_def)
    qed
  qed
qed


lemma acars_table_block:
  "acars_table tn data =
     block_table tn (py_slice data (py_find data ''%RAW%'' + 5) (py_find data ''%END%''))"
  by (simp add: acars_table_def block_table_def block_rows_def append_rows_eq Let_def
      map_row_def comp_def)

text \<open>
  C3.  When the response contains the two sentinels, \<open>%RAW%\<close> first occurring after
  \<open>pre\<close> and \<open>%END%\<close> first occurring after the block \<open>body\<close> that follows it, the
  table is built from \<open>body\<close> alone, whatever precedes and follows: the first line of
  the block is skipped, each remaining non-empty line is split on commas into the
  columns LEVEL, HGHT, TEMP, DWPT, WDIR, WSPD, and every cell is coerced to a number,
  not-a-number for a token that denotes none.
\<close>

theorem acars_table_from_block:
  assumes "data = pre @ ''%RAW%'' @ body @ ''%END%'' @ post"
    and "\<not> sublist ''%RAW%'' (pre @ ''%RAW'')"
    and "\<not> sublist ''%END%'' (pre @ ''%RAW%'' @ body @ ''%END'')"
  shows "acars_table tn data = block_table tn body"
  using data_section_between [OF assms(2,3), of post] assms(1)
  by (simp add: acars_table_block)

theorem acars_table_from_block_witness:
  "\<not> sublist ''%RAW%'' ((''%TITLE%'' @ [CHR 0x0A] @ '' YNN 1620'' @ [CHR 0x0A]) @ ''%RAW'')
   \<and> \<not> sublist ''%END%'' ((''%TITLE%'' @ [CHR 0x0A] @ '' YNN 1620'' @ [CHR 0x0A]) @ ''%RAW%''
          @ ([CHR 0x0A] @ ''1000,100,20,10,180,5'' @ [CHR 0x0A]
             @ ''950,540,17,M,190,10'' @ [CHR 0x0A]) @ ''%END'')
   \<and> acars_table read_decimal
        ((''%TITLE%'' @ [CHR 0x0A] @ '' YNN 1620'' @ [CHR 0x0A]) @ ''%RAW%''
          @ ([CHR 0x0A] @ ''1000,100,20,10,180,5'' @ [CHR 0x0A]
             @ ''950,540,17,M,190,10'' @ [CHR 0x0A]) @ ''%END%'' @ [CHR 0x0A])
     = Inr [\<lparr>LEVEL = Finite 950, HGHT = Finite 540, TEMP = Finite 17, DWPT = NaN,
              WDIR = Finite 190, WSPD = Finite 10\<rparr>]"
proof -
  let ?pre = "''%TITLE%'' @ [CHR 0x0A] @ '' YNN 1620'' @ [CHR 0x0A]"
  let ?body = "[CHR 0x0A] @ ''1000,100,20,10,180,5'' @ [CHR 0x0A]
             @ ''950,540,17,M,190,10'' @ [CHR 0x0A]"
  have h1: "\<not> sublist ''%RAW%'' (?pre @ ''%RAW'')"
    by (simp add: sublist_Cons_right)
  have h2: "\<not> sublist ''%END%'' (?pre @ ''%RAW%'' @ ?body @ ''%END'')"
    by (simp add: sublist_Cons_right)
  have "block_table read_decimal ?body
     = Inr [\<lparr>LEVEL = Finite 950, HGHT = Finite 540, TEMP = Finite 17, DWPT = NaN,
              WDIR = Finite 190, WSPD = Finite 10\<rparr>]"
    by (simp add: block_table_def block_rows_def py_strip_def is_space_def coerce_def
        read_decimal_def)
  with acars_table_from_block [OF refl h1 h2, of read_decimal "[CHR 0x0A]"] h1 h2
  show ?thesis by simp
qed


lemma py_slice_drop_last:
  "py_slice (pre @ body @ [c]) (int (length pre)) (- 1) = body"
proof -
  have "nat (- 1 + int (length (pre @ body @ [c]))) = length (pre @ body)" by simp
  then have "take (nat (- 1 + int (length (pre @ body @ [c])))) (pre @ body @ [c]) = pre @ body"
    by (metis append.assoc append_eq_conv_conj)
  then show ?thesis by (simp add: py_slice_def Let_def)
qed

lemma py_slice_no_sentinels: "py_slice (''abcd'' @ body @ ''x'') 4 (- 1) = body"
  using py_slice_drop_last [of "''abcd''" body "CHR ''x''"] by simp

lemma py_find_absent: "\<not> sublist sub s \<Longrightarrow> py_find s sub = - 1"
  by (simp add: py_find_def find_from_absent)

lemma acars_table_between:
  assumes "\<not> sublist ''%RAW%'' (pre @ ''%RAW'')"
    and "\<not> sublist ''%END%'' (pre @ ''%RAW%'' @ body @ ''%END'')"
  shows "acars_table tn (pre @ ''%RAW%'' @ body @ ''%END%'' @ post) = block_table tn body"
  using data_section_between [OF assms, of post] by (simp add: acars_table_block)

lemma acars_table_wrapped:
  assumes "\<not> sublist ''%RAW%'' (''abcd'' @ body @ ''x'')"
    and "\<not> sublist ''%END%'' (''abcd'' @ body @ ''x'')"
  shows "acars_table tn (''abcd'' @ body @ ''x'') = block_table tn body"
proof -
  have "acars_table tn (''abcd'' @ body @ ''x'')
      = block_table tn (py_slice (''abcd'' @ body @ ''x'') 4 (- 1))"
    unfolding acars_table_block [of tn "''abcd'' @ body @ ''x''"]
    using assms by (simp add: py_find_absent)
  also have "py_slice (''abcd'' @ body @ ''x'') 4 (- 1) = body"
    by (rule py_slice_no_sentinels)
  finally show ?thesis .
qed

text \<open>
  C7.  The ACARS script catches nothing: a failed fetch, the \<open>ValueError\<close> of the table
  construction or an exception of the plotting code ends the run with that exception.
  The only exception the table construction raises is the \<open>ValueError\<close> of a retained
  line that does not split into exactly six fields.  A missing sentinel is not an
  error by itself: \<open>find\<close> then returns \<open>-1\<close>, and with both sentinels missing the text
  \<open>data[4:-1]\<close> is taken for the block.  So a response \<open>abcd\<close>, block, \<open>x\<close> without
  sentinels makes the whole script end exactly as the well-formed response with the
  same block between its sentinels does, with the same figure if that one is plotted.
\<close>

theorem acars_table_errors:
  "acars_table tn data =
     block_table tn (py_slice data (py_find data ''%RAW%'' + 5) (py_find data ''%END%''))
   \<and> (\<forall>e. acars_table tn data = Inl e \<longrightarrow>
         e = ValueError
         \<and> \<not> list_all (\<lambda>l. length (split_on CHR '','' l) = 6)
              (block_rows (py_slice data (py_find data ''%RAW%'' + 5) (py_find data ''%END%''))))
   \<and> (list_all (\<lambda>l. length (split_on CHR '','' l) = 6)
         (block_rows (py_slice data (py_find data ''%RAW%'' + 5) (py_find data ''%END%'')))
       \<longrightarrow> (\<exists>df. acars_table tn data = Inr df))
   \<and> (\<not> sublist ''%RAW%'' data \<and> \<not> sublist ''%END%'' data \<longrightarrow>
         acars_table tn data = block_table tn (py_slice data 4 (- 1)))
   \<and> (\<forall>e. net acars_url = Inl e \<longrightarrow> snd (acars_script net tn plot) = Inl e)
   \<and> (\<forall>e. net acars_url = Inr data \<and> acars_table tn data = Inl e \<longrightarrow>
         snd (acars_script net tn plot) = Inl e)
   \<and> (\<forall>df. net acars_url = Inr data \<and> acars_table tn data = Inr df \<longrightarrow>
         snd (acars_script net tn plot) = plot df)
   \<and> (\<forall>pre body post net'.
         \<not> sublist ''%RAW%'' (pre @ ''%RAW'')
         \<and> \<not> sublist ''%END%'' (pre @ ''%RAW%'' @ body @ ''%END'')
         \<and> \<not> sublist ''%RAW%'' (''abcd'' @ body @ ''x'')
         \<and> \<not> sublist ''%END%'' (''abcd'' @ body @ ''x'')
         \<and> net acars_url = Inr (''abcd'' @ body @ ''x'')
         \<and> net' acars_url = Inr (pre @ ''%RAW%'' @ body @ ''%END%'' @ post) \<longrightarrow>
         acars_script net tn plot = acars_script net' tn plot)"
proof (intro conjI allI impI)
  show eq: "acars_table tn data =
     block_table tn (py_slice data (py_find data ''%RAW%'' + 5) (py_find data ''%END%''))"
    by (rule acars_table_block)
  show "\<exists>df. acars_table tn data = Inr df"
    if "list_all (\<lambda>l. length (split_on CHR '','' l) = 6)
         (block_rows (py_slice data (py_find data ''%RAW%'' + 5) (py_find data ''%END%'')))"
    using that unfolding eq by (simp add: block_table_def)
  show "acars_table tn data = block_table tn (py_slice data 4 (- 1))"
    if "\<not> sublist ''%RAW%'' data \<and> \<not> sublist ''%END%'' data"
    using that unfolding eq by (simp add: py_find_absent)
  show "snd (acars_script net tn plot) = Inl e" if "net acars_url = Inl e" for e
    using that by (simp add: acars_script_def)
  show "snd (acars_script net tn plot) = Inl e"
    if "net acars_url = Inr data \<and> acars_table tn data = Inl e" for e
    using that by (simp add: acars_script_def)
  show "snd (acars_script net tn plot) = plot df"
    if "net acars_url = Inr data \<and> acars_table tn data = Inr df" for df
    using that by (simp add: acars_script_def)
  show "acars_script net tn plot = acars_script net' tn plot"
    if h: "\<not> sublist ''%RAW%'' (pre @ ''%RAW'')
         \<and> \<not> sublist ''%END%'' (pre @ ''%RAW%'' @ body @ ''%END'')
         \<and> \<not> sublist ''%RAW%'' (''abcd'' @ body @ ''x'')
         \<and> \<not> sublist ''%END%'' (''abcd'' @ body @ ''x'')
         \<and> net acars_url = Inr (''abcd'' @ body @ ''x'')
         \<and> net' acars_url = Inr (pre @ ''%RAW%'' @ body @ ''%END%'' @ post)"
    for pre body post net'
  proof -
    from h have "acars_table tn (pre @ ''%RAW%'' @ body @ ''%END%'' @ post) = block_table tn body"
      by (intro acars_table_between) blast+
    moreover from h have "acars_table tn (''abcd'' @ body @ ''x'') = block_table tn body"
      by (intro acars_table_wrapped) blast+
    ultimately show ?thesis using h by (simp add: acars_script_def)
  qed
  fix e assume e: "acars_table tn data = Inl e"
  then show "e = ValueError"
    unfolding eq by (simp add: block_table_def split: if_splits)
  from e show "\<not> list_all (\<lambda>l. length (split_on CHR '','' l) = 6)
              (block_rows (py_slice data (py_find data ''%RAW%'' + 5) (py_find data ''%END%'')))"
    unfolding eq by (simp add: block_table_def split: if_splits)
qed

lemma sample_table:
  "block_table read_signed sample_block
     = Inr [\<lparr>LEVEL = Finite 975, HGHT = Finite 330, TEMP = Finite 26, DWPT = Finite 19, WDIR = Finite 185, WSPD = Finite 10\<rparr>,
            \<lparr>LEVEL = Finite 950, HGHT = Finite 560, TEMP = Finite 24, DWPT = Finite 18, WDIR = Finite 190, WSPD = Finite 12\<rparr>,
            \<lparr>LEVEL = Finite 925, HGHT = Finite 790, TEMP = Finite 22, DWPT = Finite 16, WDIR = Finite 195, WSPD = Finite 15\<rparr>,
            \<lparr>LEVEL = Finite 900, HGHT = Finite 1020, TEMP = Finite 20, DWPT = Finite 14, WDIR = Finite 200, WSPD = Finite 18\<rparr>,
            \<lparr>LEVEL = Finite 850, HGHT = Finite 1500, TEMP = Finite 16, DWPT = Finite 11, WDIR = Finite 210, WSPD = Finite 22\<rparr>,
            \<lparr>LEVEL = Finite 800, HGHT = Finite 2010, TEMP = Finite 12, DWPT = Finite 7, WDIR = Finite 220, WSPD = Finite 25\<rparr>,
            \<lparr>LEVEL = Finite 750, HGHT = Finite 2550, TEMP = Finite 8, DWPT = Finite 2, WDIR = Finite 230, WSPD = Finite 28\<rparr>,
            \<lparr>LEVEL = Finite 700, HGHT = Finite 3120, TEMP = Finite 4, DWPT = Finite (- 3), WDIR = Finite 240, WSPD = Finite 32\<rparr>,
            \<lparr>LEVEL = Finite 650, HGHT = Finite 3730, TEMP = Finite 0, DWPT = Finite (- 9), WDIR = Finite 245, WSPD = Finite 36\<rparr>,
            \<lparr>LEVEL = Finite 600, HGHT = Finite 4380, TEMP = Finite (- 5), DWPT = Finite (- 15), WDIR = Finite 250, WSPD = Finite 40\<rparr>,
            \<lparr>LEVEL = Finite 550, HGHT = Finite 5080, TEMP = Finite (- 10), DWPT = Finite (- 22), WDIR = Finite 255, WSPD = Finite 45\<rparr>,
            \<lparr>LEVEL = Finite 500, HGHT = Finite 5840, TEMP = Finite (- 16), DWPT = Finite (- 30), WDIR = Finite 260, WSPD = Finite 50\<rparr>]"
  by (simp add: block_table_def block_rows_def sample_block_def py_strip_def is_space_def
      coerce_def read_signed_def read_decimal_def)

lemma sample_no_sentinels:
  "\<not> sublist ''%RAW%'' (''abcd'' @ sample_block @ ''x'')"
  "\<not> sublist ''%END%'' (''abcd'' @ sample_block @ ''x'')"
  by (simp_all add: sample_block_def sublist_Cons_right)

lemma sample_sentinels:
  "\<not> sublist ''%RAW%''
      ((''%TITLE%'' @ [CHR 0x0A] @ '' YNN   230702/1620'' @ [CHR 0x0A] @ [CHR 0x0A] @
     ''   LEVEL       HGHT       TEMP       DWPT       WDIR       WSPD'' @ [CHR 0x0A] @
     ''-------------------------------------------------------------------'' @ [CHR 0x0A]) @ ''%RAW'')"
  "\<not> sublist ''%END%''
      ((''%TITLE%'' @ [CHR 0x0A] @ '' YNN   230702/1620'' @ [CHR 0x0A] @ [CHR 0x0A] @
     ''   LEVEL       HGHT       TEMP       DWPT       WDIR       WSPD'' @ [CHR 0x0A] @
     ''-------------------------------------------------------------------'' @ [CHR 0x0A]) @ ''%RAW%'' @ sample_block @ ''%END'')"
  by (simp_all add: sample_block_def sublist_Cons_right)

lemma sample_response_table: "acars_table tn sample_response = block_table tn sample_block"
  using acars_table_between [OF sample_sentinels, of tn "[CHR 0x0A]"]
  by (simp add: sample_response_def)

theorem acars_table_errors_witness:
  "\<not> sublist ''%RAW%'' (''abcd'' @ ([CHR 0x0A] @ ''hdr'' @ [CHR 0x0A] @ ''1000,100,20,10,180'') @ ''x'')
   \<and> \<not> sublist ''%END%'' (''abcd'' @ ([CHR 0x0A] @ ''hdr'' @ [CHR 0x0A] @ ''1000,100,20,10,180'') @ ''x'')
   \<and> acars_table read_decimal
        (''abcd'' @ ([CHR 0x0A] @ ''hdr'' @ [CHR 0x0A] @ ''1000,100,20,10,180'') @ ''x'')
      = Inl ValueError
   \<and> \<not> list_all (\<lambda>l. length (split_on CHR '','' l) = 6)
        (block_rows ([CHR 0x0A] @ ''hdr'' @ [CHR 0x0A] @ ''1000,100,20,10,180''))
   \<and> acars_script (\<lambda>u. Inr (''abcd'' @ sample_block @ ''x'')) read_signed (\<lambda>df. Inr (length df))
      = acars_script (\<lambda>u. Inr sample_response) read_signed (\<lambda>df. Inr (length df))
   \<and> snd (acars_script (\<lambda>u. Inr (''abcd'' @ sample_block @ ''x'')) read_signed
             (\<lambda>df. Inr (length df) :: exn + nat)) = Inr 12"
proof -
  let ?body = "[CHR 0x0A] @ ''hdr'' @ [CHR 0x0A] @ ''1000,100,20,10,180''"
  let ?data = "''abcd'' @ ?body @ ''x''"
  let ?plot = "\<lambda>df :: pyfloat sounding_row list. Inr (length df) :: exn + nat"
  let ?net = "\<lambda>u :: string. Inr (''abcd'' @ sample_block @ ''x'') :: exn + string"
  let ?net' = "\<lambda>u :: string. Inr sample_response :: exn + string"
  have h: "\<not> sublist ''%RAW%'' ?data" "\<not> sublist ''%END%'' ?data"
    by (simp_all add: sublist_Cons_right)
  have bad: "\<not> list_all (\<lambda>l. length (split_on CHR '','' l) = 6) (block_rows ?body)"
    by (simp add: block_rows_def py_strip_def is_space_def)
  have slice: "py_slice ?data 4 (- 1) = ?body"
    by (rule py_slice_no_sentinels)
  from acars_table_errors [of read_decimal ?data] h
  have "acars_table read_decimal ?data = block_table read_decimal (py_slice ?data 4 (- 1))"
    by blast
  with bad slice have err: "acars_table read_decimal ?data = Inl ValueError"
    by (simp add: block_table_def)
  from acars_table_errors [of read_signed "''abcd'' @ sample_block @ ''x''" ?net ?plot]
  have twin: "\<forall>pre body post net'.
         \<not> sublist ''%RAW%'' (pre @ ''%RAW'')
         \<and> \<not> sublist ''%END%'' (pre @ ''%RAW%'' @ body @ ''%END'')
         \<and> \<not> sublist ''%RAW%'' (''abcd'' @ body @ ''x'')
         \<and> \<not> sublist ''%END%'' (''abcd'' @ body @ ''x'')
         \<and> ?net acars_url = Inr (''abcd'' @ body @ ''x'')
         \<and> net' acars_url = Inr (pre @ ''%RAW%'' @ body @ ''%END%'' @ post) \<longrightarrow>
         acars_script ?net read_signed ?plot = acars_script net' read_signed ?plot"
    by blast
  let ?pre = "''%TITLE%'' @ [CHR 0x0A] @ '' YNN   230702/1620'' @ [CHR 0x0A] @ [CHR 0x0A] @
     ''   LEVEL       HGHT       TEMP       DWPT       WDIR       WSPD'' @ [CHR 0x0A] @
     ''-------------------------------------------------------------------'' @ [CHR 0x0A]"
  note twin' = twin [THEN spec [where x = ?pre], THEN spec [where x = sample_block],
      THEN spec [where x = "[CHR 0x0A]"], THEN spec [where x = ?net']]
  have resp: "?net' acars_url = Inr (?pre @ ''%RAW%'' @ sample_block @ ''%END%'' @ [CHR 0x0A])"
    by (simp add: sample_response_def)
  have same: "acars_script ?net read_signed ?plot = acars_script ?net' read_signed ?plot"
    using twin' sample_sentinels sample_no_sentinels resp by blast
  have "snd (acars_script ?net' read_signed ?plot) = Inr 12"
    by (simp add: acars_script_def sample_response_table sample_table)
  with same have "snd (acars_script ?net read_signed ?plot) = Inr 12" by simp
  with h bad err same show ?thesis by simp
qed

theorem acars_missing_sentinels_counterexample:
  "\<not> sublist ''%RAW%'' (''abcd'' @ sample_block @ ''x'')
   \<and> \<not> sublist ''%END%'' (''abcd'' @ sample_block @ ''x'')
   \<and> acars_table read_signed (''abcd'' @ sample_block @ ''x'')
     = Inr [\<lparr>LEVEL = Finite 975, HGHT = Finite 330, TEMP = Finite 26, DWPT = Finite 19, WDIR = Finite 185, WSPD = Finite 10\<rparr>,
            \<lparr>LEVEL = Finite 950, HGHT = Finite 560, TEMP = Finite 24, DWPT = Finite 18, WDIR = Finite 190, WSPD = Finite 12\<rparr>,
            \<lparr>LEVEL = Finite 925, HGHT = Finite 790, TEMP = Finite 22, DWPT = Finite 16, WDIR = Finite 195, WSPD = Finite 15\<rparr>,
            \<lparr>LEVEL = Finite 900, HGHT = Finite 1020, TEMP = Finite 20, DWPT = Finite 14, WDIR = Finite 200, WSPD = Finite 18\<rparr>,
            \<lparr>LEVEL = Finite 850, HGHT = Finite 1500, TEMP = Finite 16, DWPT = Finite 11, WDIR = Finite 210, WSPD = Finite 22\<rparr>,
            \<lparr>LEVEL = Finite 800, HGHT = Finite 2010, TEMP = Finite 12, DWPT = Finite 7, WDIR = Finite 220, WSPD = Finite 25\<rparr>,
            \<lparr>LEVEL = Finite 750, HGHT = Finite 2550, TEMP = Finite 8, DWPT = Finite 2, WDIR = Finite 230, WSPD = Finite 28\<rparr>,
            \<lparr>LEVEL = Finite 700, HGHT = Finite 3120, TEMP = Finite 4, DWPT = Finite (- 3), WDIR = Finite 240, WSPD = Finite 32\<rparr>,
            \<lparr>LEVEL = Finite 650, HGHT = Finite 3730, TEMP = Finite 0, DWPT = Finite (- 9), WDIR = Finite 245, WSPD = Finite 36\<rparr>,
            \<lparr>LEVEL = Finite 600, HGHT = Finite 4380, TEMP = Finite (- 5), DWPT = Finite (- 15), WDIR = Finite 250, WSPD = Finite 40\<rparr>,
            \<lparr>LEVEL = Finite 550, HGHT = Finite 5080, TEMP = Finite (- 10), DWPT = Finite (- 22), WDIR = Finite 255, WSPD = Finite 45\<rparr>,
            \<lparr>LEVEL = Finite 500, HGHT = Finite 5840, TEMP = Finite (- 16), DWPT = Finite (- 30), WDIR = Finite 260, WSPD = Finite 50\<rparr>]
   \<and> acars_table read_signed (''abcd'' @ sample_block @ ''x'')
     = acars_table read_signed sample_response"
  using sample_no_sentinels acars_table_wrapped [OF sample_no_sentinels, of read_signed]
    sample_response_table [of read_signed] sample_table
  by simp

section \<open>Properties of the outbound requests\<close>

lemma request_loop_prefix: "prefix (fst (request_loop net stns df)) stns"
  by (induction stns arbitrary: df) (auto simp: case_prod_beta split: sum.splits)

lemma request_loop_all:
  "\<forall>s \<in> set stns. \<exists>r. net s = Inr r \<Longrightarrow> fst (request_loop net stns df) = stns"
  by (induction stns arbitrary: df) (auto simp: case_prod_beta split: sum.splits)

lemma request_loop_nonempty: "stns \<noteq> [] \<Longrightarrow> fst (request_loop net stns df) \<noteq> []"
  by (cases stns) (auto simp: case_prod_beta split: sum.splits)

lemma warning_lsr_prefix:
  "prefix (fst (warning_lsr_script net pf)) [tor_url, hail_url, wind_url, cow_url]
   \<and> fst (warning_lsr_script net pf) \<noteq> []"
  by (auto simp: warning_lsr_script_def split: sum.splits prod.splits option.splits)

lemma warning_lsr_all:
  assumes "\<forall>u \<in> set [tor_url, hail_url, wind_url, cow_url]. \<exists>r. net u = Inr r"
    and "\<forall>speed. net wind_url = Inr speed \<longrightarrow> fst (convert_speeds pf speed) = None"
  shows "fst (warning_lsr_script net pf) = [tor_url, hail_url, wind_url, cow_url]"
  using assms
  by (auto simp: warning_lsr_script_def split: sum.splits prod.splits option.splits)

text \<open>
  C6.  Not every script makes a single request.  The ACARS script makes exactly one
  request, to its hardcoded address, in every run.  The Warning/LSR script requests
  its four hardcoded addresses in order, three report files and the warnings document,
  stopping early only when a request or the conversion loop raises: four requests when
  nothing raises.  The RAOB script makes one request per station of its hardcoded list
  of five, in list order, stopping only at a request that raises.
\<close>

theorem script_requests:
  "fst (acars_script anet tn plot) = [acars_url]
   \<and> prefix (fst (warning_lsr_script wnet pf)) [tor_url, hail_url, wind_url, cow_url]
   \<and> fst (warning_lsr_script wnet pf) \<noteq> []
   \<and> ((\<forall>u \<in> set [tor_url, hail_url, wind_url, cow_url]. \<exists>r. wnet u = Inr r)
        \<and> (\<forall>speed. wnet wind_url = Inr speed \<longrightarrow> fst (convert_speeds pf speed) = None)
       \<longrightarrow> fst (warning_lsr_script wnet pf) = [tor_url, hail_url, wind_url, cow_url])
   \<and> prefix (fst (raob_requests rnet)) stn_list
   \<and> fst (raob_requests rnet) \<noteq> []
   \<and> ((\<forall>s \<in> set stn_list. \<exists>r. rnet s = Inr r) \<longrightarrow> fst (raob_requests rnet) = stn_list)
   \<and> length stn_list = 5"
proof -
  have a: "fst (acars_script anet tn plot) = [acars_url]"
    by (simp add: acars_script_def split: sum.splits)
  have r: "fst (raob_requests rnet) \<noteq> []"
    unfolding raob_requests_def by (rule request_loop_nonempty) (simp add: stn_list_def)
  have n: "length stn_list = 5" by (simp add: stn_list_def)
  from a r n warning_lsr_prefix [of wnet pf] warning_lsr_all [of wnet pf]
    request_loop_prefix [of rnet stn_list "[]"] request_loop_all [of stn_list rnet "[]"]
  show ?thesis unfolding raob_requests_def by blast
qed

theorem script_requests_witness:
  "list_all (\<lambda>u. \<exists>r. (\<lambda>u. Inr [Str ''UNK'', Flt (Finite 70)] :: exn + cell list) u = Inr r)
      [tor_url, hail_url, wind_url, cow_url]
   \<and> fst (convert_speeds (\<lambda>s. None) [Str ''UNK'', Flt (Finite 70)]) = None
   \<and> fst (warning_lsr_script (\<lambda>u. Inr [Str ''UNK'', Flt (Finite 70)]) (\<lambda>s. None))
       = [tor_url, hail_url, wind_url, cow_url]
   \<and> fst (raob_requests (\<lambda>s. Inr () :: exn + unit)) = stn_list
   \<and> fst (raob_requests (\<lambda>s. if s = ''DVN'' then Inl URLError else Inr ()))
       = [''LBF'', ''OAX'', ''DVN'']"
proof -
  let ?wnet = "\<lambda>u. Inr [Str ''UNK'', Flt (Finite 70)] :: exn + cell list"
  let ?pf = "\<lambda>s :: string. None :: pyfloat option"
  have c: "fst (convert_speeds ?pf [Str ''UNK'', Flt (Finite 70)]) = None"
    by (simp add: convert_speeds_def upt_conv_Cons)
  have "fst (raob_requests (\<lambda>s. if s = ''DVN'' then Inl URLError else Inr ()))
       = [''LBF'', ''OAX'', ''DVN'']"
    by (simp add: raob_requests_def stn_list_def)
  with c script_requests [where wnet = ?wnet and pf = ?pf
      and rnet = "\<lambda>s. Inr () :: exn + unit" and anet = "\<lambda>u. Inl URLError :: exn + string"
      and tn = ?pf and plot = "\<lambda>df. Inr df"]
  show ?thesis by simp
qed

theorem single_request_counterexample:
  "fst (warning_lsr_script (\<lambda>u. Inr [Str ''UNK'', Flt (Finite 70)]) (\<lambda>s. None))
       = [tor_url, hail_url, wind_url, cow_url]
   \<and> \<not> length (fst (warning_lsr_script (\<lambda>u. Inr [Str ''UNK'', Flt (Finite 70)]) (\<lambda>s. None))) \<le> 1
   \<and> length (fst (raob_requests (\<lambda>s. Inr () :: exn + unit))) = 5"
  by (simp add: warning_lsr_script_def convert_speeds_def upt_conv_Cons raob_requests_def
      stn_list_def)

end
